theory Spec2Isabelle
  imports Main "HOL-Library.AList" "HOL-Library.Sublist"
begin

section \<open>Python values used by the bot host\<close>

text \<open>
  A Python \<open>str\<close> is a sequence of Unicode code points, so text is modelled as a list
  of code points. ASCII literals are written through \<open>asc\<close>; other literals are given
  by their code points.
\<close>

type_synonym ustr = "nat list"

definition asc :: "string \<Rightarrow> ustr" where
  "asc s = map of_char s"

text \<open>
  Exceptions are values. \<open>exn\<close> stands for instances of Python's \<open>Exception\<close>, the
  class every \<open>except Exception\<close> clause of the source catches.
\<close>

datatype exn = KeyError | TypeError | ValueError | AttributeError
  | NotImplementedError | RuntimeError | OtherError ustr

text \<open>
  The configuration tree as \<open>yaml.safe_load\<close> and \<open>_get_default_config\<close> build it:
  scalars, sequences and mappings. A \<open>dict\<close> keeps insertion order, so it is an
  association list; only string keys are modelled, since every lookup of the source
  uses a segment of a split string.
\<close>

datatype cval = CNone | CBool bool | CInt int | CStr ustr
  | CList "cval list" | CDict "(ustr \<times> cval) list"

section \<open>core/config\_manager.py\<close>

text \<open>\<open>key.split('.')\<close>: every separator splits, empty pieces are kept.\<close>

fun split_on :: "nat \<Rightarrow> ustr \<Rightarrow> ustr list" where
  "split_on c [] = [[]]"
| "split_on c (x # xs) =
     (if x = c then [] # split_on c xs
      else (case split_on c xs of [] \<Rightarrow> [[x]] | w # ws \<Rightarrow> (x # w) # ws))"

definition split_dot :: "ustr \<Rightarrow> ustr list" where
  "split_dot key = split_on 46 key"

text \<open>\<open>value[k]\<close> for a string \<open>k\<close>.\<close>

fun getitem :: "cval \<Rightarrow> ustr \<Rightarrow> exn + cval" where
  "getitem (CDict m) k = (case map_of m k of None \<Rightarrow> Inl KeyError | Some v \<Rightarrow> Inr v)"
| "getitem _ k = Inl TypeError"

text \<open>\<open>k in config\<close> for a string \<open>k\<close>.\<close>

fun contains :: "cval \<Rightarrow> ustr \<Rightarrow> exn + bool" where
  "contains (CDict m) k = Inr (map_of m k \<noteq> None)"
| "contains (CList xs) k = Inr (CStr k \<in> set xs)"
| "contains (CStr s) k = Inr (sublist k s)"
| "contains _ k = Inl TypeError"

text \<open>\<open>config[k] = v\<close> for a string \<open>k\<close>.\<close>

fun setitem :: "cval \<Rightarrow> ustr \<Rightarrow> cval \<Rightarrow> exn + cval" where
  "setitem (CDict m) k v = Inr (CDict (AList.update k v m))"
| "setitem _ k v = Inl TypeError"

text \<open>The loop of \<open>ConfigManager.get\<close>: \<open>for k in keys: value = value[k]\<close>.\<close>

fun get_loop :: "ustr list \<Rightarrow> cval \<Rightarrow> exn + cval" where
  "get_loop [] value = Inr value"
| "get_loop (k # ks) value =
     (case getitem value k of Inl e \<Rightarrow> Inl e | Inr v \<Rightarrow> get_loop ks v)"

text \<open>
  \<open>ConfigManager.get\<close>: the loop under \<open>except (KeyError, TypeError): return default\<close>.
  Any other exception would leave the function.
\<close>

definition get :: "cval \<Rightarrow> ustr \<Rightarrow> cval \<Rightarrow> exn + cval" where
  "get config key dflt =
     (case get_loop (split_dot key) config of
        Inr v \<Rightarrow> Inr v
      | Inl KeyError \<Rightarrow> Inr dflt
      | Inl TypeError \<Rightarrow> Inr dflt
      | Inl e \<Rightarrow> Inl e)"

text \<open>
  \<open>ConfigManager.set\<close>. The source walks \<open>keys[:-1]\<close> with an alias \<open>config\<close> into the
  tree and assigns at \<open>keys[-1]\<close>; here the walk returns the rebuilt node, and the
  child mutated through the alias is stored back under its key.
\<close>

fun set_loop :: "ustr list \<Rightarrow> ustr \<Rightarrow> cval \<Rightarrow> cval \<Rightarrow> exn + cval" where
  "set_loop [] final v config = setitem config final v"
| "set_loop (k # ks) final v config =
     (case contains config k of
        Inl e \<Rightarrow> Inl e
      | Inr present \<Rightarrow>
          (case (if present then Inr config else setitem config k (CDict [])) of
             Inl e \<Rightarrow> Inl e
           | Inr config1 \<Rightarrow>
               (case getitem config1 k of
                  Inl e \<Rightarrow> Inl e
                | Inr child \<Rightarrow>
                    (case set_loop ks final v child of
                       Inl e \<Rightarrow> Inl e
                     | Inr child' \<Rightarrow> setitem config1 k child'))))"

definition set_config :: "cval \<Rightarrow> ustr \<Rightarrow> cval \<Rightarrow> exn + cval" where
  "set_config config key v =
     (let keys = split_dot key in set_loop (butlast keys) (last keys) v config)"

text \<open>\<open>ConfigManager._get_default_config\<close>.\<close>

definition default_config :: cval where
  "default_config =
     CDict [
       (asc ''wechat'', CDict [
         (asc ''login_timeout'', CInt 300),
         (asc ''enable_cmd_qr'', CBool True),
         (asc ''hot_reload'', CBool True)]),
       (asc ''file_processing'', CDict [
         (asc ''upload_dir'', CStr (asc ''uploads'')),
         (asc ''output_dir'', CStr (asc ''outputs'')),
         (asc ''max_file_size'', CInt 50),
         (asc ''supported_formats'', CDict [
           (asc ''word'', CList [CStr (asc ''.doc''), CStr (asc ''.docx'')]),
           (asc ''pdf'', CList [CStr (asc ''.pdf'')]),
           (asc ''image'', CList [CStr (asc ''.jpg''), CStr (asc ''.jpeg''), CStr (asc ''.png''),
               CStr (asc ''.bmp''), CStr (asc ''.gif''), CStr (asc ''.tiff'')])])]),
       (asc ''scheduler'', CDict [
         (asc ''timezone'', CStr (asc ''Asia/Shanghai'')),
         (asc ''max_jobs'', CInt 100)]),
       (asc ''news'', CDict [
         (asc ''sources'', CList [CStr (asc ''https://www.jrj.com.cn/''),
             CStr (asc ''https://finance.sina.com.cn/''),
             CStr (asc ''https://www.10jqka.com.cn/'')]),
         (asc ''keywords'', CList [CStr [37329, 34701], CStr [32929, 24066], CStr [22522, 37329],
             CStr [29702, 36130], CStr [25237, 36164]]),
         (asc ''max_news_count'', CInt 5)]),
       (asc ''logging'', CDict [
         (asc ''level'', CStr (asc ''INFO'')),
         (asc ''format'',
             CStr (asc ''{time:YYYY-MM-DD HH:mm:ss} | {level} | {name}:{function}:{line} - {message}'')),
         (asc ''file'', CStr (asc ''logs/wechat_bot.log''))]),
       (asc ''database'', CDict [
         (asc ''path'', CStr (asc ''data/wechat_bot.db''))]),
       (asc ''plugins'', CDict [
         (asc ''enabled'', CList [CStr (asc ''file_converter''), CStr (asc ''scheduler''),
             CStr (asc ''news_pusher''), CStr (asc ''help'')]),
         (asc ''auto_reload'', CBool True)])]"

text \<open>
  \<open>ConfigManager.validate\<close>: \<open>self.get(key) is None\<close> for each required key, the
  default of \<open>get\<close> being \<open>None\<close>.
\<close>

definition required_keys :: "ustr list" where
  "required_keys =
     [asc ''wechat.login_timeout'', asc ''file_processing.upload_dir'',
      asc ''file_processing.output_dir'', asc ''logging.level'', asc ''database.path'']"

fun validate_loop :: "cval \<Rightarrow> ustr list \<Rightarrow> exn + bool" where
  "validate_loop config [] = Inr True"
| "validate_loop config (key # keys) =
     (case get config key CNone of
        Inl e \<Rightarrow> Inl e
      | Inr v \<Rightarrow> if v = CNone then Inr False else validate_loop config keys)"

definition validate :: "cval \<Rightarrow> exn + bool" where
  "validate config = validate_loop config required_keys"

text \<open>
  A tree state in which \<open>set\<close> can walk the given segments: the node is a mapping, and
  each segment is either absent from it or leads to a node of the same kind.
\<close>

fun mappings_along :: "ustr list \<Rightarrow> cval \<Rightarrow> bool" where
  "mappings_along [] (CDict m) = True"
| "mappings_along (k # ks) (CDict m) =
     (case map_of m k of None \<Rightarrow> True | Some child \<Rightarrow> mappings_along ks child)"
| "mappings_along ks _ = False"

section \<open>core/base\_plugin.py\<close>

text \<open>
  The attributes \<open>BasePlugin.__init__\<close> sets, and \<open>priv\<close> for whatever else a concrete
  plugin keeps. (\<open>self.config\<close>, the shared configuration manager, is the \<open>config\<close> of
  the plugin manager below.)
\<close>

record 'st attrs =
  name :: ustr
  version :: ustr
  description :: ustr
  is_running :: bool
  is_enabled :: bool
  priv :: 'st

text \<open>
  A plugin instance: its attributes and the methods of its class. A method takes the
  attributes and returns how it ended together with the attributes it leaves behind;
  a method that raises may have changed them before. \<open>execute_command\<close> returns
  \<open>Optional[str]\<close>, the type \<open>_handle_plugin_command\<close> declares for what it passes on.
\<close>

record 'st plugin =
  attrs :: "'st attrs"
  start_impl :: "'st attrs \<Rightarrow> exn option \<times> 'st attrs"
  stop_impl :: "'st attrs \<Rightarrow> exn option \<times> 'st attrs"
  execute_impl :: "ustr \<Rightarrow> ustr \<Rightarrow> 'st attrs \<Rightarrow> (exn + ustr option) \<times> 'st attrs"

definition start :: "'st plugin \<Rightarrow> exn option \<times> 'st plugin" where
  "start p = (case start_impl p (attrs p) of (r, a) \<Rightarrow> (r, p\<lparr>attrs := a\<rparr>))"

definition stop :: "'st plugin \<Rightarrow> exn option \<times> 'st plugin" where
  "stop p = (case stop_impl p (attrs p) of (r, a) \<Rightarrow> (r, p\<lparr>attrs := a\<rparr>))"

definition execute_command ::
  "'st plugin \<Rightarrow> ustr \<Rightarrow> ustr \<Rightarrow> (exn + ustr option) \<times> 'st plugin" where
  "execute_command p command user_id =
     (case execute_impl p command user_id (attrs p) of (r, a) \<Rightarrow> (r, p\<lparr>attrs := a\<rparr>))"

text \<open>\<open>BasePlugin.execute_command\<close>, inherited by a plugin that does not override it.\<close>

definition base_execute_command ::
  "ustr \<Rightarrow> ustr \<Rightarrow> 'st attrs \<Rightarrow> (exn + ustr option) \<times> 'st attrs" where
  "base_execute_command command user_id a = (Inl NotImplementedError, a)"

section \<open>core/plugin\_manager.py\<close>

text \<open>
  What \<open>load_plugin\<close> finds for a name: no file \<open>plugins/<name>.py\<close>, a file whose
  import raises, or a module. The members of a module are listed as
  \<open>inspect.getmembers\<close> yields them; a member is either a class that is a proper
  subclass of \<open>BasePlugin\<close>, given by what calling it with the configuration does, or
  anything else.
\<close>

datatype 'st member = OtherMember | PluginClass "cval \<Rightarrow> exn + 'st plugin"

datatype 'st source = NoFile | ImportFails exn | Module "'st member list"

text \<open>One constructor for each \<open>logger\<close> call of the plugin manager.\<close>

datatype event =
    PluginLoaded ustr | PluginFileMissing ustr | NoPluginClass ustr | LoadFailed ustr exn
  | PluginUnloaded ustr | PluginAbsent ustr | UnloadFailed ustr exn
  | PluginStarted ustr | StartFailed ustr exn
  | PluginStopped ustr | StopFailed ustr exn
  | ReloadBegin | ReloadEnd

record 'st plugin_manager =
  config :: cval
  plugins :: "(ustr \<times> 'st plugin) list"
  plugin_modules :: "(ustr \<times> 'st member list) list"
  log :: "event list"

definition logged :: "event \<Rightarrow> 'st plugin_manager \<Rightarrow> 'st plugin_manager" where
  "logged ev pm = pm\<lparr>log := log pm @ [ev]\<rparr>"

text \<open>The search for the plugin class: the first proper subclass of \<open>BasePlugin\<close>.\<close>

fun find_plugin_class :: "'st member list \<Rightarrow> (cval \<Rightarrow> exn + 'st plugin) option" where
  "find_plugin_class [] = None"
| "find_plugin_class (OtherMember # ms) = find_plugin_class ms"
| "find_plugin_class (PluginClass ctor # ms) = Some ctor"

text \<open>
  \<open>PluginManager.load_plugin\<close>. Every exception of the body is caught and answered
  with \<open>None\<close>; the two registrations are the last statements that change the manager.
\<close>

definition load_plugin ::
  "(ustr \<Rightarrow> 'st source) \<Rightarrow> 'st plugin_manager \<Rightarrow> ustr
     \<Rightarrow> 'st plugin option \<times> 'st plugin_manager" where
  "load_plugin files pm plugin_name =
     (case files plugin_name of
        NoFile \<Rightarrow> (None, logged (PluginFileMissing plugin_name) pm)
      | ImportFails e \<Rightarrow> (None, logged (LoadFailed plugin_name e) pm)
      | Module ms \<Rightarrow>
          (case find_plugin_class ms of
             None \<Rightarrow> (None, logged (NoPluginClass plugin_name) pm)
           | Some plugin_class \<Rightarrow>
               (case plugin_class (config pm) of
                  Inl e \<Rightarrow> (None, logged (LoadFailed plugin_name e) pm)
                | Inr plugin_instance \<Rightarrow>
                    (Some plugin_instance,
                     logged (PluginLoaded plugin_name)
                       (pm\<lparr>plugins := AList.update plugin_name plugin_instance (plugins pm),
                           plugin_modules := AList.update plugin_name ms (plugin_modules pm)\<rparr>)))))"

text \<open>
  \<open>PluginManager.unload_plugin\<close>. \<open>plugin.stop()\<close> runs inside the \<open>try\<close>, before the
  \<open>del\<close>: when it raises, the handler logs and returns \<open>False\<close>, and the instance, in
  the state \<open>stop\<close> left it, is still registered.
\<close>

definition unload_plugin :: "'st plugin_manager \<Rightarrow> ustr \<Rightarrow> bool \<times> 'st plugin_manager" where
  "unload_plugin pm plugin_name =
     (case map_of (plugins pm) plugin_name of
        Some plugin \<Rightarrow>
          (case stop plugin of
             (None, plugin') \<Rightarrow>
               (True,
                logged (PluginUnloaded plugin_name)
                  (pm\<lparr>plugins := AList.delete plugin_name (plugins pm),
                      plugin_modules := AList.delete plugin_name (plugin_modules pm)\<rparr>))
           | (Some e, plugin') \<Rightarrow>
               (False,
                logged (UnloadFailed plugin_name e)
                  (pm\<lparr>plugins := AList.update plugin_name plugin' (plugins pm)\<rparr>)))
      | None \<Rightarrow> (False, logged (PluginAbsent plugin_name) pm))"

text \<open>\<open>PluginManager.reload_plugin\<close>: unload, then load.\<close>

definition reload_plugin ::
  "(ustr \<Rightarrow> 'st source) \<Rightarrow> 'st plugin_manager \<Rightarrow> ustr \<Rightarrow> bool \<times> 'st plugin_manager" where
  "reload_plugin files pm plugin_name =
     (case unload_plugin pm plugin_name of
        (_, pm1) \<Rightarrow>
          (case load_plugin files pm1 plugin_name of
             (r, pm2) \<Rightarrow> (r \<noteq> None, pm2)))"

text \<open>
  \<open>for plugin_name in enabled_plugins\<close>: what iterating the configured value yields.
  A list yields its elements, a string its characters, a mapping its keys; anything
  else is not iterable.
\<close>

fun py_iter :: "cval \<Rightarrow> exn + cval list" where
  "py_iter (CList xs) = Inr xs"
| "py_iter (CStr s) = Inr (map (\<lambda>c. CStr [c]) s)"
| "py_iter (CDict m) = Inr (map (\<lambda>kv. CStr (fst kv)) m)"
| "py_iter _ = Inl TypeError"

fun unload_all :: "'st plugin_manager \<Rightarrow> ustr list \<Rightarrow> 'st plugin_manager" where
  "unload_all pm [] = pm"
| "unload_all pm (plugin_name # rest) = unload_all (snd (unload_plugin pm plugin_name)) rest"

text \<open>
  The loading loop. \<open>load_plugin\<close> is declared for a \<open>str\<close>; an element of the
  configured sequence that is not one is outside that type, and the loop passes over it.
\<close>

fun load_all ::
  "(ustr \<Rightarrow> 'st source) \<Rightarrow> 'st plugin_manager \<Rightarrow> cval list \<Rightarrow> 'st plugin_manager" where
  "load_all files pm [] = pm"
| "load_all files pm (CStr plugin_name # rest) =
     load_all files (snd (load_plugin files pm plugin_name)) rest"
| "load_all files pm (_ # rest) = load_all files pm rest"

text \<open>
  \<open>PluginManager.reload_plugins\<close>: the configured names are read first, every loaded
  plugin is unloaded (over a copy of the keys), then the configured names are loaded in
  their order. The function has no \<open>try\<close>: a value that is not iterable raises at the
  second loop.
\<close>

definition reload_plugins ::
  "(ustr \<Rightarrow> 'st source) \<Rightarrow> 'st plugin_manager \<Rightarrow> exn option \<times> 'st plugin_manager" where
  "reload_plugins files pm =
     (case get (config pm) (asc ''plugins.enabled'') (CList []) of
        Inl e \<Rightarrow> (Some e, logged ReloadBegin pm)
      | Inr enabled_plugins \<Rightarrow>
          (let pm1 = unload_all (logged ReloadBegin pm) (map fst (plugins pm)) in
           case py_iter enabled_plugins of
             Inl e \<Rightarrow> (Some e, pm1)
           | Inr names \<Rightarrow> (None, logged ReloadEnd (load_all files pm1 names))))"

text \<open>
  \<open>PluginManager.start_plugins\<close> and \<open>stop_plugins\<close>: each call sits in its own
  \<open>try\<close> inside the loop. The loops return the entries with the instances as the calls
  left them, and what was logged.
\<close>

fun start_loop ::
  "(ustr \<times> 'st plugin) list \<Rightarrow> (ustr \<times> 'st plugin) list \<times> event list" where
  "start_loop [] = ([], [])"
| "start_loop ((plugin_name, plugin) # rest) =
     (case start plugin of
        (None, plugin') \<Rightarrow>
          (case start_loop rest of
             (ps, evs) \<Rightarrow> ((plugin_name, plugin') # ps, PluginStarted plugin_name # evs))
      | (Some e, plugin') \<Rightarrow>
          (case start_loop rest of
             (ps, evs) \<Rightarrow> ((plugin_name, plugin') # ps, StartFailed plugin_name e # evs)))"

definition start_plugins :: "'st plugin_manager \<Rightarrow> exn option \<times> 'st plugin_manager" where
  "start_plugins pm =
     (case start_loop (plugins pm) of
        (ps, evs) \<Rightarrow> (None, pm\<lparr>plugins := ps, log := log pm @ evs\<rparr>))"

fun stop_loop ::
  "(ustr \<times> 'st plugin) list \<Rightarrow> (ustr \<times> 'st plugin) list \<times> event list" where
  "stop_loop [] = ([], [])"
| "stop_loop ((plugin_name, plugin) # rest) =
     (case stop plugin of
        (None, plugin') \<Rightarrow>
          (case stop_loop rest of
             (ps, evs) \<Rightarrow> ((plugin_name, plugin') # ps, PluginStopped plugin_name # evs))
      | (Some e, plugin') \<Rightarrow>
          (case stop_loop rest of
             (ps, evs) \<Rightarrow> ((plugin_name, plugin') # ps, StopFailed plugin_name e # evs)))"

definition stop_plugins :: "'st plugin_manager \<Rightarrow> exn option \<times> 'st plugin_manager" where
  "stop_plugins pm =
     (case stop_loop (plugins pm) of
        (ps, evs) \<Rightarrow> (None, pm\<lparr>plugins := ps, log := log pm @ evs\<rparr>))"

definition get_plugin :: "'st plugin_manager \<Rightarrow> ustr \<Rightarrow> 'st plugin option" where
  "get_plugin pm plugin_name = map_of (plugins pm) plugin_name"

text \<open>\<open>PluginManager.get_status\<close>.\<close>

record details =
  d_name :: ustr
  d_version :: ustr
  d_description :: ustr
  d_is_running :: bool

record status =
  total_plugins :: nat
  enabled_plugins :: cval
  loaded_plugins :: "ustr list"
  plugin_details :: "(ustr \<times> details) list"

fun details_loop ::
  "(ustr \<times> 'st plugin) list \<Rightarrow> (ustr \<times> details) list \<Rightarrow> (ustr \<times> details) list" where
  "details_loop [] acc = acc"
| "details_loop ((nm, plugin) # rest) acc =
     details_loop rest
       (AList.update nm
          \<lparr>d_name = name (attrs plugin), d_version = version (attrs plugin),
           d_description = description (attrs plugin),
           d_is_running = is_running (attrs plugin)\<rparr> acc)"

definition get_status :: "'st plugin_manager \<Rightarrow> exn + status" where
  "get_status pm =
     (case get (config pm) (asc ''plugins.enabled'') (CList []) of
        Inl e \<Rightarrow> Inl e
      | Inr enabled \<Rightarrow>
          Inr \<lparr>total_plugins = length (plugins pm),
               enabled_plugins = enabled,
               loaded_plugins = map fst (plugins pm),
               plugin_details = details_loop (plugins pm) []\<rparr>)"

text \<open>
  \<open>PluginManager.execute_plugin_command\<close>: an absent name raises \<open>ValueError\<close>.
  Every instance has the method \<open>execute_command\<close> of \<open>BasePlugin\<close>, so the
  \<open>hasattr\<close> test holds. No function of the repository calls this one; the router
  goes through \<open>get_plugin\<close>.
\<close>

definition execute_plugin_command ::
  "'st plugin_manager \<Rightarrow> ustr \<Rightarrow> ustr \<Rightarrow> ustr
     \<Rightarrow> (exn + ustr option) \<times> 'st plugin_manager" where
  "execute_plugin_command pm plugin_name command user_id =
     (case get_plugin pm plugin_name of
        None \<Rightarrow> (Inl ValueError, pm)
      | Some plugin \<Rightarrow>
          (case execute_command plugin command user_id of
             (r, plugin') \<Rightarrow>
               (r, pm\<lparr>plugins := AList.update plugin_name plugin' (plugins pm)\<rparr>)))"

section \<open>core/message\_handler.py\<close>

subsection \<open>The literals of the handler\<close>

definition help_text :: ustr where
  "help_text =
     [10, 129302, 32, 24494, 20449, 24037, 20855, 26426, 22120, 20154, 24110, 21161, 10,
      10, 128203, 32, 21487, 29992, 21629, 20196, 65306, 10, 8226, 32, 24110, 21161, 47,
      104, 101, 108, 112, 32, 45, 32, 26174, 31034, 27492, 24110, 21161, 20449, 24687, 10,
      8226, 32, 29366, 24577, 47, 115, 116, 97, 116, 117, 115, 32, 45, 32, 26597, 30475,
      26426, 22120, 20154, 29366, 24577, 10, 8226, 32, 25554, 20214, 47, 112, 108, 117,
      103, 105, 110, 115, 32, 45, 32, 26597, 30475, 24050, 23433, 35013, 25554, 20214, 10,
      8226, 32, 37325, 36733, 47, 114, 101, 108, 111, 97, 100, 32, 45, 32, 37325, 26032,
      21152, 36733, 25554, 20214, 10, 10, 128193, 32, 25991, 20214, 22788, 29702, 65306,
      10, 8226, 32, 21457, 36865, 87, 111, 114, 100, 25991, 26723, 32, 8594, 32, 33258,
      21160, 36716, 25442, 20026, 80, 68, 70, 10, 8226, 32, 21457, 36865, 22270, 29255,
      25991, 20214, 32, 8594, 32, 33258, 21160, 36716, 25442, 20026, 80, 68, 70, 10, 8226,
      32, 21457, 36865, 80, 68, 70, 25991, 20214, 32, 8594, 32, 33258, 21160, 36716, 25442,
      20026, 87, 111, 114, 100, 10, 10, 9200, 32, 23450, 26102, 21151, 33021, 65306, 10,
      8226, 32, 35774, 32622, 23450, 26102, 25552, 37266, 10, 8226, 32, 23450, 26102,
      21457, 36865, 28040, 24687, 10, 10, 128240, 32, 26032, 38395, 25512, 36865, 65306,
      10, 8226, 32, 35746, 38405, 27599, 26085, 37329, 34701, 26032, 38395, 10, 8226, 32,
      33719, 21462, 28909, 38376, 25237, 36164, 36164, 35759, 10, 10, 128161, 32, 25552,
      31034, 65306, 30452, 25509, 21457, 36865, 25991, 20214, 21363, 21487, 20351, 29992,
      25991, 20214, 36716, 25442, 21151, 33021, 65281, 10, 32, 32, 32, 32, 32, 32, 32, 32]"

definition status_text_1 :: ustr where
  "status_text_1 =
     [10, 129302, 32, 26426, 22120, 20154, 29366, 24577, 10, 10, 128202, 32, 25554, 20214,
      32479, 35745, 65306, 10, 8226, 32, 24635, 25554, 20214, 25968, 58, 32]"

definition status_text_2 :: ustr where
  "status_text_2 =
     [10, 8226, 32, 24050, 21152, 36733, 58, 32]"

definition status_text_3 :: ustr where
  "status_text_3 =
     [10, 10, 128295, 32, 31995, 32479, 29366, 24577, 65306, 10, 8226, 32, 36816, 34892,
      29366, 24577, 58, 32]"

definition status_text_4 :: ustr where
  "status_text_4 =
     [10, 8226, 32, 37197, 32622, 29366, 24577, 58, 32]"

definition status_text_5 :: ustr where
  "status_text_5 =
     [10, 32, 32, 32, 32, 32, 32, 32, 32, 32, 32, 32, 32, 32, 32, 32, 32]"

definition text_running :: ustr where
  "text_running =
     [36816, 34892, 20013]"

definition text_stopped :: ustr where
  "text_stopped =
     [24050, 20572, 27490]"

definition text_valid :: ustr where
  "text_valid =
     [27491, 24120]"

definition text_invalid :: ustr where
  "text_invalid =
     [24322, 24120]"

definition status_unavailable :: ustr where
  "status_unavailable =
     [26080, 27861, 33719, 21462, 29366, 24577, 20449, 24687, 12290]"

definition status_failed :: ustr where
  "status_failed =
     [33719, 21462, 29366, 24577, 20449, 24687, 26102, 20986, 29616, 38169, 35823, 12290]"

definition plugins_header :: ustr where
  "plugins_header =
     [128230, 32, 24050, 23433, 35013, 25554, 20214, 65306, 10, 10]"

definition icon_running :: ustr where
  "icon_running =
     [128994]"

definition icon_stopped :: ustr where
  "icon_stopped =
     [128308]"

definition plugins_unavailable :: ustr where
  "plugins_unavailable =
     [26080, 27861, 33719, 21462, 25554, 20214, 20449, 24687, 12290]"

definition plugins_failed :: ustr where
  "plugins_failed =
     [33719, 21462, 25554, 20214, 20449, 24687, 26102, 20986, 29616, 38169, 35823, 12290]"

definition description_label :: ustr where
  "description_label =
     [32, 32, 32, 25551, 36848, 58, 32]"

definition reload_done :: ustr where
  "reload_done =
     [9989, 32, 25554, 20214, 37325, 26032, 21152, 36733, 23436, 25104, 65281]"

definition reload_unavailable :: ustr where
  "reload_unavailable =
     [26080, 27861, 37325, 26032, 21152, 36733, 25554, 20214, 12290]"

definition reload_failed :: ustr where
  "reload_failed =
     [37325, 26032, 21152, 36733, 25554, 20214, 26102, 20986, 29616, 38169, 35823, 12290]"

definition not_loaded_prefix :: ustr where
  "not_loaded_prefix =
     [25554, 20214, 32, 39]"

definition not_loaded_suffix :: ustr where
  "not_loaded_suffix =
     [39, 32, 19981, 23384, 22312, 25110, 26410, 21152, 36733, 12290]"

definition text_message_failed :: ustr where
  "text_message_failed =
     [25265, 27465, 65292, 22788, 29702, 28040, 24687, 26102, 20986, 29616, 38169, 35823,
      12290]"

definition default_response_1 :: ustr where
  "default_response_1 =
     [26377, 20160, 20040, 21487, 20197, 24110, 21161, 24744, 30340, 21527, 65311]"

definition default_response_2 :: ustr where
  "default_response_2 =
     [35831, 21457, 36865, 25991, 20214, 25110, 36755, 20837, 21629, 20196, 65292, 25105,
      20250, 20026, 24744, 22788, 29702, 65281]"

definition default_response_3 :: ustr where
  "default_response_3 =
     [36755, 20837, 32, 39, 24110, 21161, 39, 32, 26597, 30475, 25152, 26377, 21487, 29992,
      21151, 33021, 12290]"

definition default_response_4 :: ustr where
  "default_response_4 =
     [25105, 26159, 24744, 30340, 26234, 33021, 21161, 25163, 65292, 38543, 26102, 20026,
      24744, 26381, 21153, 65281]"

definition pattern_help_zh :: ustr where
  "pattern_help_zh =
     [24110, 21161]"

definition pattern_help_en :: ustr where
  "pattern_help_en = asc ''help''"

definition pattern_status_zh :: ustr where
  "pattern_status_zh =
     [29366, 24577]"

definition pattern_status_en :: ustr where
  "pattern_status_en = asc ''status''"

definition pattern_plugins_zh :: ustr where
  "pattern_plugins_zh =
     [25554, 20214]"

definition pattern_plugins_en :: ustr where
  "pattern_plugins_en = asc ''plugins''"

definition pattern_reload_zh :: ustr where
  "pattern_reload_zh =
     [37325, 36733]"

definition pattern_reload_en :: ustr where
  "pattern_reload_en = asc ''reload''"

subsection \<open>Text operations\<close>

text \<open>\<open>str.strip()\<close> removes the code points for which \<open>str.isspace\<close> holds.\<close>

definition isspace :: "nat \<Rightarrow> bool" where
  "isspace c =
     ((9 \<le> c \<and> c \<le> 13) \<or> (28 \<le> c \<and> c \<le> 32) \<or> c = 133 \<or> c = 160 \<or> c = 5760
      \<or> (8192 \<le> c \<and> c \<le> 8202) \<or> c = 8232 \<or> c = 8233 \<or> c = 8239 \<or> c = 8287
      \<or> c = 12288)"

definition strip :: "ustr \<Rightarrow> ustr" where
  "strip s = rev (dropWhile isspace (rev (dropWhile isspace s)))"

text \<open>\<open>s.split(sep, 1)\<close> for a separator of one character.\<close>

definition split_first :: "nat \<Rightarrow> ustr \<Rightarrow> ustr list" where
  "split_first c s =
     (if c \<in> set s then [takeWhile (\<lambda>x. x \<noteq> c) s, tl (dropWhile (\<lambda>x. x \<noteq> c) s)]
      else [s])"

text \<open>\<open>', '.join(names)\<close>.\<close>

fun join_comma :: "ustr list \<Rightarrow> ustr" where
  "join_comma [] = []"
| "join_comma [x] = x"
| "join_comma (x # y # ys) = x @ asc '', '' @ join_comma (y # ys)"

text \<open>The decimal text of a count, as an f-string renders an \<open>int\<close>.\<close>

fun str_nat :: "nat \<Rightarrow> ustr" where
  "str_nat n = (if n < 10 then [48 + n] else str_nat (n div 10) @ [48 + n mod 10])"

declare str_nat.simps [simp del]

text \<open>
  \<open>re.match(pattern, content, re.IGNORECASE)\<close> for the patterns of the handler, each
  of the shape \<open>^a$|^b$\<close> with literal \<open>a\<close> and \<open>b\<close>. A character of the text
  matches a pattern character when it is that character, its upper-case letter, or
  one of the code points the \<open>re\<close> module folds to it (U+0130 and U+0131 for \<open>i\<close>,
  U+017F for \<open>s\<close>). \<open>$\<close> matches at the end and before a final newline.
\<close>

definition ci_char :: "nat \<Rightarrow> nat \<Rightarrow> bool" where
  "ci_char p c =
     (c = p \<or> (97 \<le> p \<and> p \<le> 122 \<and> c + 32 = p)
      \<or> (p = 105 \<and> (c = 304 \<or> c = 305)) \<or> (p = 115 \<and> c = 383))"

definition literal_match :: "ustr \<Rightarrow> ustr \<Rightarrow> bool" where
  "literal_match p s = list_all2 ci_char p s"

definition anchored_match :: "ustr \<Rightarrow> ustr \<Rightarrow> bool" where
  "anchored_match p s =
     (literal_match p s \<or> (s \<noteq> [] \<and> last s = 10 \<and> literal_match p (butlast s)))"

definition re_match :: "ustr \<times> ustr \<Rightarrow> ustr \<Rightarrow> bool" where
  "re_match pattern s = (anchored_match (fst pattern) s \<or> anchored_match (snd pattern) s)"

subsection \<open>The handler\<close>

datatype sys_command = Help | Status | Plugins | Reload

text \<open>\<open>self.command_patterns\<close>, in the order of the dictionary.\<close>

definition command_patterns :: "((ustr \<times> ustr) \<times> sys_command) list" where
  "command_patterns =
     [((pattern_help_zh, pattern_help_en), Help),
      ((pattern_status_zh, pattern_status_en), Status),
      ((pattern_plugins_zh, pattern_plugins_en), Plugins),
      ((pattern_reload_zh, pattern_reload_en), Reload)]"

fun first_match :: "((ustr \<times> ustr) \<times> sys_command) list \<Rightarrow> ustr \<Rightarrow> sys_command option" where
  "first_match [] content = None"
| "first_match ((pattern, handler) # rest) content =
     (if re_match pattern content then Some handler else first_match rest content)"

text \<open>
  The handler holds the configuration manager and, once \<open>WeChatBot.__init__\<close> has
  injected it, the plugin manager (\<open>getattr(self, 'plugin_manager', None)\<close>).
\<close>

record 'st message_handler =
  handler_config :: cval
  plugin_manager :: "'st plugin_manager option"

text \<open>A message: the two keys the handler reads; \<open>None\<close> is a missing key.\<close>

record msg =
  FromUserName :: "ustr option"
  Text :: "ustr option"

definition handle_help :: ustr where
  "handle_help = strip help_text"

definition is_bot_running :: bool where
  "is_bot_running = True"

definition handle_status :: "'st message_handler \<Rightarrow> ustr" where
  "handle_status h =
     (case plugin_manager h of
        None \<Rightarrow> status_unavailable
      | Some pm \<Rightarrow>
          (case get_status pm of
             Inl e \<Rightarrow> status_failed
           | Inr st \<Rightarrow>
               (case validate (handler_config h) of
                  Inl e \<Rightarrow> status_failed
                | Inr valid \<Rightarrow>
                    strip (status_text_1 @ str_nat (total_plugins st)
                      @ status_text_2 @ join_comma (loaded_plugins st)
                      @ status_text_3 @ (if is_bot_running then text_running else text_stopped)
                      @ status_text_4 @ (if valid then text_valid else text_invalid)
                      @ status_text_5))))"

fun plugins_loop :: "(ustr \<times> details) list \<Rightarrow> ustr \<Rightarrow> ustr" where
  "plugins_loop [] plugins_text = plugins_text"
| "plugins_loop ((nm, d) # rest) plugins_text =
     plugins_loop rest
       (plugins_text
          @ (if d_is_running d then icon_running else icon_stopped)
          @ asc '' '' @ d_name d @ asc '' v'' @ d_version d @ [10]
          @ description_label @ d_description d @ [10, 10])"

definition handle_plugins :: "'st message_handler \<Rightarrow> ustr" where
  "handle_plugins h =
     (case plugin_manager h of
        None \<Rightarrow> plugins_unavailable
      | Some pm \<Rightarrow>
          (case get_status pm of
             Inl e \<Rightarrow> plugins_failed
           | Inr st \<Rightarrow> strip (plugins_loop (plugin_details st) plugins_header)))"

definition handle_reload ::
  "(ustr \<Rightarrow> 'st source) \<Rightarrow> 'st message_handler \<Rightarrow> ustr \<times> 'st message_handler" where
  "handle_reload files h =
     (case plugin_manager h of
        None \<Rightarrow> (reload_unavailable, h)
      | Some pm \<Rightarrow>
          (case reload_plugins files pm of
             (None, pm') \<Rightarrow> (reload_done, h\<lparr>plugin_manager := Some pm'\<rparr>)
           | (Some e, pm') \<Rightarrow> (reload_failed, h\<lparr>plugin_manager := Some pm'\<rparr>)))"

text \<open>
  \<open>_handle_plugin_command\<close>: \<open>/name rest\<close> goes to the plugin registered as \<open>name\<close>.
  An exception of the plugin is caught here and answered with \<open>None\<close>; the instance
  stays as the call left it.
\<close>

definition handle_plugin_command ::
  "'st message_handler \<Rightarrow> ustr \<Rightarrow> ustr \<Rightarrow> ustr option \<times> 'st message_handler" where
  "handle_plugin_command h content user_id =
     (case content of
        [] \<Rightarrow> (None, h)
      | c # rest \<Rightarrow>
          if c \<noteq> 47 then (None, h)
          else
            (case split_first 32 rest of
               [] \<Rightarrow> (None, h)
             | plugin_name # args \<Rightarrow>
                 (let command = (case args of [] \<Rightarrow> [] | x # _ \<Rightarrow> x) in
                  case plugin_manager h of
                    None \<Rightarrow> (None, h)
                  | Some pm \<Rightarrow>
                      (case get_plugin pm plugin_name of
                         None \<Rightarrow> (Some (not_loaded_prefix @ plugin_name @ not_loaded_suffix), h)
                       | Some plugin \<Rightarrow>
                           (case execute_command plugin command user_id of
                              (r, plugin') \<Rightarrow>
                                (case r of Inl e \<Rightarrow> None | Inr response \<Rightarrow> response,
                                 h\<lparr>plugin_manager :=
                                     Some (pm\<lparr>plugins :=
                                       AList.update plugin_name plugin' (plugins pm)\<rparr>)\<rparr>))))))"

text \<open>
  \<open>_get_default_response\<close>: \<open>random.choice\<close> over four replies; \<open>rnd\<close> is the
  draw.
\<close>

definition responses :: "ustr list" where
  "responses = [default_response_1, default_response_2, default_response_3, default_response_4]"

definition get_default_response :: "nat \<Rightarrow> ustr" where
  "get_default_response rnd = responses ! (rnd mod length responses)"

text \<open>
  \<open>handle_text_message\<close>. A missing key raises \<open>KeyError\<close> inside the \<open>try\<close> and is
  answered with the failure text. A plugin reply is returned only when it is truthy.
\<close>

definition handle_text_message ::
  "(ustr \<Rightarrow> 'st source) \<Rightarrow> 'st message_handler \<Rightarrow> msg \<Rightarrow> nat
     \<Rightarrow> ustr \<times> 'st message_handler" where
  "handle_text_message files h m rnd =
     (case FromUserName m of
        None \<Rightarrow> (text_message_failed, h)
      | Some user_id \<Rightarrow>
          (case Text m of
             None \<Rightarrow> (text_message_failed, h)
           | Some text \<Rightarrow>
               (let content = strip text in
                case first_match command_patterns content of
                  Some Help \<Rightarrow> (handle_help, h)
                | Some Status \<Rightarrow> (handle_status h, h)
                | Some Plugins \<Rightarrow> (handle_plugins h, h)
                | Some Reload \<Rightarrow> handle_reload files h
                | None \<Rightarrow>
                    (case handle_plugin_command h content user_id of
                       (Some plugin_response, h') \<Rightarrow>
                         if plugin_response \<noteq> [] then (plugin_response, h')
                         else (get_default_response rnd, h')
                     | (None, h') \<Rightarrow> (get_default_response rnd, h')))))"

section \<open>Sample plugins\<close>

text \<open>
  Concrete inputs for the examples below. \<open>sample_plugin\<close> is a plugin in the manner of
  \<open>plugins/help.py\<close>: \<open>start\<close> and \<open>stop\<close> set \<open>is_running\<close>; it inherits
  \<open>execute_command\<close> from \<open>BasePlugin\<close>. \<open>stuck_plugin\<close> is a running plugin whose
  \<open>start\<close> and \<open>stop\<close> raise. \<open>quiet_plugin\<close> answers every command with the empty
  string. \<open>sample_files\<close> is a plugin directory: \<open>help\<close> and \<open>scheduler\<close> hold a plugin
  class, \<open>abstract\<close> a class that cannot be instantiated, \<open>empty\<close> no plugin class, and
  the import of \<open>broken\<close> raises.
\<close>

definition sample_attrs :: "ustr \<Rightarrow> unit attrs" where
  "sample_attrs nm =
     \<lparr>name = nm, version = asc ''1.0.0'', description = asc ''sample'',
      is_running = False, is_enabled = True, priv = ()\<rparr>"

definition sample_plugin :: "ustr \<Rightarrow> unit plugin" where
  "sample_plugin nm =
     \<lparr>attrs = sample_attrs nm,
      start_impl = (\<lambda>a. (None, a\<lparr>is_running := True\<rparr>)),
      stop_impl = (\<lambda>a. (None, a\<lparr>is_running := False\<rparr>)),
      execute_impl = base_execute_command\<rparr>"

definition stuck_plugin :: "ustr \<Rightarrow> unit plugin" where
  "stuck_plugin nm =
     \<lparr>attrs = (sample_attrs nm)\<lparr>is_running := True\<rparr>,
      start_impl = (\<lambda>a. (Some RuntimeError, a)),
      stop_impl = (\<lambda>a. (Some RuntimeError, a)),
      execute_impl = base_execute_command\<rparr>"

definition quiet_plugin :: "ustr \<Rightarrow> unit plugin" where
  "quiet_plugin nm =
     \<lparr>attrs = sample_attrs nm,
      start_impl = (\<lambda>a. (None, a\<lparr>is_running := True\<rparr>)),
      stop_impl = (\<lambda>a. (None, a\<lparr>is_running := False\<rparr>)),
      execute_impl = (\<lambda>command user_id a. (Inr (Some []), a))\<rparr>"

definition sample_files :: "ustr \<Rightarrow> unit source" where
  "sample_files nm =
     (if nm = asc ''help'' \<or> nm = asc ''scheduler''
      then Module [OtherMember, PluginClass (\<lambda>cfg. Inr (sample_plugin nm))]
      else if nm = asc ''abstract'' then Module [OtherMember, PluginClass (\<lambda>cfg. Inl TypeError)]
      else if nm = asc ''empty'' then Module [OtherMember]
      else if nm = asc ''broken'' then ImportFails AttributeError
      else NoFile)"

definition sample_manager :: "(ustr \<times> unit plugin) list \<Rightarrow> unit plugin_manager" where
  "sample_manager ps =
     \<lparr>config = CDict [(asc ''plugins'',
                   CDict [(asc ''enabled'', CList [CStr (asc ''help''), CStr (asc ''scheduler'')])])],
      plugins = ps, plugin_modules = map (\<lambda>kv. (fst kv, [])) ps, log = []\<rparr>"

definition sample_handler :: "(ustr \<times> unit plugin) list \<Rightarrow> unit message_handler" where
  "sample_handler ps =
     \<lparr>handler_config = config (sample_manager ps), plugin_manager = Some (sample_manager ps)\<rparr>"

section \<open>Predicates used in the statements\<close>

text \<open>
  The three ways in which \<open>load_plugin\<close> can fail are excluded: there is a module, it
  holds a plugin class, and calling the class with the configuration returns an instance.
\<close>

definition load_succeeds :: "(ustr \<Rightarrow> 'st source) \<Rightarrow> cval \<Rightarrow> ustr \<Rightarrow> bool" where
  "load_succeeds files cfg nm =
     (case files nm of
        Module ms \<Rightarrow>
          (case find_plugin_class ms of
             Some ctor \<Rightarrow> (case ctor cfg of Inr _ \<Rightarrow> True | Inl _ \<Rightarrow> False)
           | None \<Rightarrow> False)
      | _ \<Rightarrow> False)"

section \<open>Properties of the configuration store\<close>

lemma split_on_nonempty: "split_on c s \<noteq> []"
  by (induction s) (auto split: list.splits)

lemma split_dot_snoc: "butlast (split_dot key) @ [last (split_dot key)] = split_dot key"
  by (simp add: split_dot_def split_on_nonempty)

lemma get_loop_append:
  "get_loop (ks1 @ ks2) c =
     (case get_loop ks1 c of Inl e \<Rightarrow> Inl e | Inr u \<Rightarrow> get_loop ks2 u)"
  by (induction ks1 arbitrary: c) (auto split: sum.splits)

lemma getitem_errors: "getitem c k = Inl e \<Longrightarrow> e = KeyError \<or> e = TypeError"
  by (cases c) (auto split: option.splits)

lemma get_loop_errors: "get_loop ks c = Inl e \<Longrightarrow> e = KeyError \<or> e = TypeError"
proof (induction ks arbitrary: c)
  case Nil
  then show ?case by simp
next
  case (Cons k ks)
  then show ?case
    by (auto split: sum.splits dest: getitem_errors)
qed

lemma getitem_miss:
  "\<forall>m. u = CDict m \<longrightarrow> map_of m k = None \<Longrightarrow>
     getitem u k = Inl KeyError \<or> getitem u k = Inl TypeError"
  by (cases u) auto

lemma get_never_raises: "\<exists>v. get cfg key d = Inr v"
proof (cases "get_loop (split_dot key) cfg")
  case (Inl e)
  then show ?thesis using get_loop_errors[OF Inl] by (auto simp: get_def)
next
  case (Inr v)
  then show ?thesis by (simp add: get_def)
qed

lemma setitem_getitem: "setitem c k v = Inr c' \<Longrightarrow> getitem c' k = Inr v"
  by (cases c) (auto simp: update_conv')

lemma setitem_is_mapping: "setitem c k v = Inr c' \<Longrightarrow> \<exists>m. c' = CDict m"
  by (cases c) auto

lemma set_loop_get_loop:
  "set_loop ks final v c = Inr c' \<Longrightarrow> get_loop (ks @ [final]) c' = Inr v"
proof (induction ks arbitrary: c c')
  case Nil
  then show ?case by (simp add: setitem_getitem)
next
  case (Cons k ks)
  from Cons.prems obtain config1 child child' where
    r: "set_loop ks final v child = Inr child'"
    and s: "setitem config1 k child' = Inr c'"
    by (auto split: sum.splits)
  have "getitem c' k = Inr child'" using s by (rule setitem_getitem)
  moreover have "get_loop (ks @ [final]) child' = Inr v" using r by (rule Cons.IH)
  ultimately show ?case by simp
qed

lemma set_loop_result_mapping: "set_loop ks final v c = Inr c' \<Longrightarrow> \<exists>m. c' = CDict m"
  by (cases ks) (auto split: sum.splits dest: setitem_is_mapping)

lemma set_loop_prefix_mapping:
  "set_loop ks final v c = Inr c' \<Longrightarrow> ks @ [final] = ks1 @ ks2 \<Longrightarrow> ks2 \<noteq> [] \<Longrightarrow>
     \<exists>m. get_loop ks1 c' = Inr (CDict m)"
proof (induction ks arbitrary: c c' ks1)
  case Nil
  then have "ks1 = []" by (cases ks1) auto
  then show ?case using set_loop_result_mapping[OF Nil.prems(1)] by simp
next
  case (Cons k ks)
  show ?case
  proof (cases ks1)
    case Nil
    then show ?thesis using set_loop_result_mapping[OF Cons.prems(1)] by simp
  next
    case (Cons k' ks1')
    from Cons.prems(1) obtain config1 child child' where
      r: "set_loop ks final v child = Inr child'"
      and s: "setitem config1 k child' = Inr c'"
      by (auto split: sum.splits)
    have k: "k' = k" and rest: "ks @ [final] = ks1' @ ks2"
      using Cons.prems(2) Cons by auto
    have "\<exists>m. get_loop ks1' child' = Inr (CDict m)"
      using Cons.IH[OF r rest Cons.prems(3)] .
    moreover have "getitem c' k = Inr child'" using s by (rule setitem_getitem)
    ultimately show ?thesis using Cons k by simp
  qed
qed

lemma set_loop_ok:
  "mappings_along ks c \<Longrightarrow> \<exists>c'. set_loop ks final v c = Inr c'"
proof (induction ks arbitrary: c)
  case Nil
  then show ?case by (cases c) auto
next
  case (Cons k ks)
  then obtain m where c: "c = CDict m" by (cases c) auto
  show ?case
  proof (cases "map_of m k")
    case None
    have "mappings_along ks (CDict [])" by (cases ks) auto
    from Cons.IH[OF this] obtain ch where "set_loop ks final v (CDict []) = Inr ch" by blast
    then show ?thesis using None c by (simp add: update_conv')
  next
    case (Some child)
    then have "mappings_along ks child" using Cons.prems c by simp
    from Cons.IH[OF this] obtain ch where "set_loop ks final v child = Inr ch" by blast
    then show ?thesis using Some c by simp
  qed
qed

lemma set_loop_fail:
  "\<not> mappings_along ks c \<Longrightarrow> set_loop ks final v c = Inl TypeError"
proof (induction ks arbitrary: c)
  case Nil
  then show ?case by (cases c) auto
next
  case (Cons k ks)
  show ?case
  proof (cases c)
    case (CDict m)
    show ?thesis
    proof (cases "map_of m k")
      case None
      then show ?thesis using Cons.prems CDict by simp
    next
      case (Some child)
      then have "\<not> mappings_along ks child" using Cons.prems CDict by simp
      from Cons.IH[OF this] show ?thesis using Some CDict by simp
    qed
  qed auto
qed

lemma set_loop_keeps_walkable:
  "set_loop ks final v c = Inr c' \<Longrightarrow> mappings_along ks c'"
proof (induction ks arbitrary: c c')
  case Nil
  then show ?case using setitem_is_mapping[of c final v c'] by auto
next
  case (Cons k ks)
  from Cons.prems obtain config1 child child' where
    r: "set_loop ks final v child = Inr child'"
    and s: "setitem config1 k child' = Inr c'"
    by (auto split: sum.splits)
  from s obtain m where m: "config1 = CDict m" by (cases config1) auto
  have "mappings_along ks child'" using r by (rule Cons.IH)
  then show ?case using s m by (auto simp: update_conv')
qed

text \<open>
  C5: when \<open>set(p, v)\<close> has been carried out, \<open>get(p, d)\<close> returns exactly \<open>v\<close>, whatever
  the default \<open>d\<close>; a second \<open>set(p, w)\<close> on the same path then succeeds as well and
  \<open>get\<close> returns exactly \<open>w\<close> (the last write wins, the leaf is replaced, not merged).
\<close>

theorem set_get_round_trip:
  assumes "set_config cfg key v = Inr cfg'"
  shows "get cfg' key d = Inr v \<and>
         (\<exists>cfg''. set_config cfg' key w = Inr cfg'' \<and> get cfg'' key d = Inr w)"
proof -
  let ?keys = "split_dot key"
  have s1: "set_loop (butlast ?keys) (last ?keys) v cfg = Inr cfg'"
    using assms by (simp add: set_config_def Let_def)
  have rt: "get c' key d = Inr x" if "set_loop (butlast ?keys) (last ?keys) x c = Inr c'"
    for c c' x
  proof -
    have "get_loop (butlast ?keys @ [last ?keys]) c' = Inr x"
      using that by (rule set_loop_get_loop)
    then show ?thesis by (simp add: split_dot_snoc get_def)
  qed
  have "mappings_along (butlast ?keys) cfg'" using s1 by (rule set_loop_keeps_walkable)
  then obtain c2 where s2: "set_loop (butlast ?keys) (last ?keys) w cfg' = Inr c2"
    using set_loop_ok by blast
  have "set_config cfg' key w = Inr c2" using s2 by (simp add: set_config_def Let_def)
  moreover have "get c2 key d = Inr w" using s2 by (rule rt)
  moreover have "get cfg' key d = Inr v" using s1 by (rule rt)
  ultimately show ?thesis by blast
qed

theorem set_get_round_trip_witness:
  "set_config (CDict [(asc ''wechat'', CDict [(asc ''login_timeout'', CInt 300)])])
       (asc ''wechat.qr.size'') (CInt 60) =
     Inr (CDict [(asc ''wechat'', CDict [(asc ''login_timeout'', CInt 300),
                   (asc ''qr'', CDict [(asc ''size'', CInt 60)])])]) \<and>
   get (CDict [(asc ''wechat'', CDict [(asc ''login_timeout'', CInt 300),
                   (asc ''qr'', CDict [(asc ''size'', CInt 60)])])])
     (asc ''wechat.qr.size'') CNone = Inr (CInt 60)"
proof -
  have h: "set_config (CDict [(asc ''wechat'', CDict [(asc ''login_timeout'', CInt 300)])])
       (asc ''wechat.qr.size'') (CInt 60) =
     Inr (CDict [(asc ''wechat'', CDict [(asc ''login_timeout'', CInt 300),
                   (asc ''qr'', CDict [(asc ''size'', CInt 60)])])])"
    by (simp add: set_config_def split_dot_def asc_def)
  show ?thesis using h set_get_round_trip[OF h, of CNone CNone] by simp
qed

text \<open>
  C6, as stated, fails: on the default tree \<open>wechat.login_timeout\<close> holds the integer
  300, and \<open>set("wechat.login_timeout.x", 1)\<close> raises \<open>TypeError\<close>.
\<close>

theorem set_raises_on_scalar_segment:
  "set_config default_config (asc ''wechat.login_timeout.x'') (CInt 1) = Inl TypeError"
  by (simp add: set_config_def split_dot_def asc_def default_config_def)

text \<open>
  C6, amended: \<open>set(path, value)\<close> succeeds exactly in the tree states where the root
  is a mapping and every segment before the last is either absent or leads to a mapping;
  it then leaves a mapping at every proper prefix of the path (missing ones are
  created). In every other state it raises \<open>TypeError\<close>.
\<close>

theorem set_succeeds_iff_walkable:
  "(mappings_along (butlast (split_dot key)) cfg \<longrightarrow>
      (\<exists>cfg'. set_config cfg key v = Inr cfg' \<and>
         (\<forall>ks1 ks2. split_dot key = ks1 @ ks2 \<and> ks2 \<noteq> [] \<longrightarrow>
            (\<exists>m. get_loop ks1 cfg' = Inr (CDict m))))) \<and>
   (\<not> mappings_along (butlast (split_dot key)) cfg \<longrightarrow>
      set_config cfg key v = Inl TypeError)"
proof (intro conjI impI)
  let ?keys = "split_dot key"
  assume "mappings_along (butlast ?keys) cfg"
  then obtain c' where s: "set_loop (butlast ?keys) (last ?keys) v cfg = Inr c'"
    using set_loop_ok by blast
  have "\<exists>m. get_loop ks1 c' = Inr (CDict m)" if "?keys = ks1 @ ks2" "ks2 \<noteq> []" for ks1 ks2
  proof -
    have "butlast ?keys @ [last ?keys] = ks1 @ ks2"
      using that(1) split_dot_snoc[of key] by simp
    from set_loop_prefix_mapping[OF s this that(2)] show ?thesis .
  qed
  then show "\<exists>cfg'. set_config cfg key v = Inr cfg' \<and>
         (\<forall>ks1 ks2. split_dot key = ks1 @ ks2 \<and> ks2 \<noteq> [] \<longrightarrow>
            (\<exists>m. get_loop ks1 cfg' = Inr (CDict m)))"
    using s by (auto simp: set_config_def Let_def)
next
  assume "\<not> mappings_along (butlast (split_dot key)) cfg"
  then show "set_config cfg key v = Inl TypeError"
    by (simp add: set_config_def Let_def set_loop_fail)
qed

theorem set_succeeds_iff_walkable_witness:
  "mappings_along (butlast (split_dot (asc ''a.b.c''))) (CDict []) \<and>
   set_config (CDict []) (asc ''a.b.c'') (CInt 3) =
     Inr (CDict [(asc ''a'', CDict [(asc ''b'', CDict [(asc ''c'', CInt 3)])])]) \<and>
   \<not> mappings_along (butlast (split_dot (asc ''a.b''))) (CDict [(asc ''a'', CInt 300)]) \<and>
   set_config (CDict [(asc ''a'', CInt 300)]) (asc ''a.b'') (CInt 3) = Inl TypeError"
proof -
  have h1: "mappings_along (butlast (split_dot (asc ''a.b.c''))) (CDict [])"
    by (simp add: split_dot_def asc_def)
  have h2: "\<not> mappings_along (butlast (split_dot (asc ''a.b''))) (CDict [(asc ''a'', CInt 300)])"
    by (simp add: split_dot_def asc_def)
  have e: "set_config (CDict []) (asc ''a.b.c'') (CInt 3) =
     Inr (CDict [(asc ''a'', CDict [(asc ''b'', CDict [(asc ''c'', CInt 3)])])])"
    by (simp add: set_config_def split_dot_def asc_def)
  show ?thesis
    using h1 h2 e
      set_succeeds_iff_walkable[of "asc ''a.b.c''" "CDict []" "CInt 3"]
      set_succeeds_iff_walkable[of "asc ''a.b''" "CDict [(asc ''a'', CInt 300)]" "CInt 3"]
    by simp
qed

text \<open>
  C7: when the walk of \<open>get\<close> over the leading segments \<open>ks1\<close> of the path reaches a
  node \<open>u\<close> and the next segment \<open>k\<close> cannot be taken there, because \<open>u\<close> is a mapping
  without \<open>k\<close> (missing segment) or not a mapping at all (type mismatch), then
  \<open>get(path, default)\<close> returns the default; it does not raise.
\<close>

theorem get_missing_returns_default:
  assumes "split_dot key = ks1 @ k # ks2"
    and "get_loop ks1 cfg = Inr u"
    and "\<forall>m. u = CDict m \<longrightarrow> map_of m k = None"
  shows "get cfg key d = Inr d"
proof -
  have "get_loop (k # ks2) u = Inl KeyError \<or> get_loop (k # ks2) u = Inl TypeError"
    using getitem_miss[OF assms(3)] by auto
  then have "get_loop (split_dot key) cfg = Inl KeyError
      \<or> get_loop (split_dot key) cfg = Inl TypeError"
    using assms(1,2) by (simp add: get_loop_append)
  then show ?thesis by (auto simp: get_def)
qed

theorem get_missing_returns_default_witness:
  "split_dot (asc ''wechat.login_timeout.x'') = [asc ''wechat'', asc ''login_timeout''] @ asc ''x'' # [] \<and>
   get_loop [asc ''wechat'', asc ''login_timeout''] default_config = Inr (CInt 300) \<and>
   get default_config (asc ''wechat.login_timeout.x'') (CStr (asc ''fallback''))
     = Inr (CStr (asc ''fallback''))"
proof -
  have h1: "split_dot (asc ''wechat.login_timeout.x'')
      = [asc ''wechat'', asc ''login_timeout''] @ asc ''x'' # []"
    by (simp add: split_dot_def asc_def)
  have h2: "get_loop [asc ''wechat'', asc ''login_timeout''] default_config = Inr (CInt 300)"
    by (simp add: asc_def default_config_def)
  have h3: "\<forall>m. CInt 300 = CDict m \<longrightarrow> map_of m (asc ''x'') = None" by simp
  show ?thesis
    using h1 h2 get_missing_returns_default[OF h1 h2 h3, of "CStr (asc ''fallback'')"] by simp
qed

section \<open>Properties of the plugin manager\<close>

lemma logged_simps [simp]:
  "plugins (logged ev pm) = plugins pm"
  "plugin_modules (logged ev pm) = plugin_modules pm"
  "config (logged ev pm) = config pm"
  "log (logged ev pm) = log pm @ [ev]"
  by (simp_all add: logged_def)

lemma load_fail_iff: "fst (load_plugin files pm nm) = None \<longleftrightarrow> \<not> load_succeeds files (config pm) nm"
  by (auto simp: load_plugin_def load_succeeds_def split: source.splits option.splits sum.splits)

lemma load_fail_unchanged:
  "fst (load_plugin files pm nm) = None \<Longrightarrow>
     plugins (snd (load_plugin files pm nm)) = plugins pm \<and>
     plugin_modules (snd (load_plugin files pm nm)) = plugin_modules pm"
  by (auto simp: load_plugin_def split: source.splits option.splits sum.splits)

lemma load_config: "config (snd (load_plugin files pm nm)) = config pm"
  by (auto simp: load_plugin_def split: source.splits option.splits sum.splits)

lemma unload_config: "config (snd (unload_plugin pm nm)) = config pm"
  by (auto simp: unload_plugin_def split: option.splits prod.splits)

lemma load_ok_keys:
  "load_succeeds files (config pm) nm \<Longrightarrow>
     map fst (plugins (snd (load_plugin files pm nm))) =
       (if nm \<in> set (map fst (plugins pm)) then map fst (plugins pm) else map fst (plugins pm) @ [nm])"
  by (auto simp: load_plugin_def load_succeeds_def update_keys split: source.splits option.splits sum.splits)

lemma load_all_keys:
  "\<forall>n\<in>set names. load_succeeds files (config pm) n \<Longrightarrow> distinct names \<Longrightarrow>
   set names \<inter> set (map fst (plugins pm)) = {} \<Longrightarrow>
   map fst (plugins (load_all files pm (map CStr names))) = map fst (plugins pm) @ names"
proof (induction names arbitrary: pm)
  case Nil
  then show ?case by simp
next
  case (Cons n names)
  let ?pm1 = "snd (load_plugin files pm n)"
  have ok: "load_succeeds files (config pm) n" using Cons.prems(1) by simp
  have k1: "map fst (plugins ?pm1) = map fst (plugins pm) @ [n]"
    using load_ok_keys[OF ok] Cons.prems(3) by auto
  have c1: "config ?pm1 = config pm" by (rule load_config)
  have "map fst (plugins (load_all files ?pm1 (map CStr names))) = map fst (plugins ?pm1) @ names"
  proof (rule Cons.IH)
    show "\<forall>n\<in>set names. load_succeeds files (config ?pm1) n" using Cons.prems(1) c1 by simp
    show "distinct names" using Cons.prems(2) by simp
    show "set names \<inter> set (map fst (plugins ?pm1)) = {}"
      using Cons.prems(2,3) k1 by auto
  qed
  then show ?case using k1 by simp
qed

lemma unload_ok:
  "map_of (plugins pm) nm = Some p \<Longrightarrow> fst (stop p) = None \<Longrightarrow>
     plugins (snd (unload_plugin pm nm)) = AList.delete nm (plugins pm)"
  by (auto simp: unload_plugin_def split: prod.splits option.splits)

lemma unload_absent:
  "map_of (plugins pm) nm = None \<Longrightarrow> plugins (snd (unload_plugin pm nm)) = plugins pm"
  by (auto simp: unload_plugin_def)

lemma unload_all_empties:
  "\<forall>(n, p)\<in>set (plugins pm). fst (stop p) = None \<Longrightarrow>
   set (map fst (plugins pm)) \<subseteq> set names \<Longrightarrow>
   plugins (unload_all pm names) = []"
proof (induction names arbitrary: pm)
  case Nil
  then show ?case by simp
next
  case (Cons n names)
  let ?pm1 = "snd (unload_plugin pm n)"
  have del: "plugins ?pm1 = AList.delete n (plugins pm)"
  proof (cases "map_of (plugins pm) n")
    case None
    then have "n \<notin> fst ` set (plugins pm)" by (simp add: map_of_eq_None_iff)
    then have "AList.delete n (plugins pm) = plugins pm" by simp
    then show ?thesis using unload_absent[OF None] by simp
  next
    case (Some p)
    then have "(n, p) \<in> set (plugins pm)" by (rule map_of_SomeD)
    then have "fst (stop p) = None" using Cons.prems(1) by auto
    then show ?thesis using unload_ok[OF Some] by simp
  qed
  have "plugins (unload_all ?pm1 names) = []"
  proof (rule Cons.IH)
    show "\<forall>(n, p)\<in>set (plugins ?pm1). fst (stop p) = None"
      using Cons.prems(1) del by (auto simp: AList.delete_eq)
    show "set (map fst (plugins ?pm1)) \<subseteq> set names"
      using Cons.prems(2) del by (auto simp: AList.delete_eq)
  qed
  then show ?case by simp
qed

lemma unload_all_config: "config (unload_all pm names) = config pm"
  by (induction names arbitrary: pm) (simp_all add: unload_config)

lemma load_all_config: "config (load_all files pm xs) = config pm"
  by (induction files pm xs rule: load_all.induct) (simp_all add: load_config)

lemma start_loop_result:
  "start_loop ps =
     (map (\<lambda>(n, p). (n, snd (start p))) ps,
      map (\<lambda>(n, p). case fst (start p) of None \<Rightarrow> PluginStarted n | Some e \<Rightarrow> StartFailed n e) ps)"
  by (induction ps rule: start_loop.induct) (auto split: prod.splits option.splits)

lemma stop_loop_result:
  "stop_loop ps =
     (map (\<lambda>(n, p). (n, snd (stop p))) ps,
      map (\<lambda>(n, p). case fst (stop p) of None \<Rightarrow> PluginStopped n | Some e \<Rightarrow> StopFailed n e) ps)"
  by (induction ps rule: stop_loop.induct) (auto split: prod.splits option.splits)

text \<open>
  C4: \<open>load_plugin\<close> fails (returns \<open>None\<close>) when there is no file, when the import
  raises, when the module holds no plugin class, and when calling the class raises; and
  whenever it fails, \<open>plugins\<close> and \<open>plugin_modules\<close> are what they were before the call.
\<close>

theorem load_failure_leaves_registry:
  "((files nm = NoFile \<or> (\<exists>e. files nm = ImportFails e) \<or>
     (\<exists>ms. files nm = Module ms \<and>
        (find_plugin_class ms = None \<or>
         (\<exists>ctor e. find_plugin_class ms = Some ctor \<and> ctor (config pm) = Inl e))))
      \<longrightarrow> fst (load_plugin files pm nm) = None) \<and>
   (fst (load_plugin files pm nm) = None \<longrightarrow>
      plugins (snd (load_plugin files pm nm)) = plugins pm \<and>
      plugin_modules (snd (load_plugin files pm nm)) = plugin_modules pm)"
proof (intro conjI impI)
  assume "files nm = NoFile \<or> (\<exists>e. files nm = ImportFails e) \<or>
     (\<exists>ms. files nm = Module ms \<and>
        (find_plugin_class ms = None \<or>
         (\<exists>ctor e. find_plugin_class ms = Some ctor \<and> ctor (config pm) = Inl e)))"
  then show "fst (load_plugin files pm nm) = None"
    by (auto simp: load_plugin_def)
next
  assume f: "fst (load_plugin files pm nm) = None"
  from load_fail_unchanged[OF f]
  show "plugins (snd (load_plugin files pm nm)) = plugins pm" by simp
  from load_fail_unchanged[OF f]
  show "plugin_modules (snd (load_plugin files pm nm)) = plugin_modules pm" by simp
qed

theorem load_failure_leaves_registry_witness:
  "sample_files (asc ''news_pusher'') = NoFile \<and>
   fst (load_plugin sample_files (sample_manager [(asc ''help'', sample_plugin (asc ''Help''))])
          (asc ''news_pusher'')) = None \<and>
   plugins (snd (load_plugin sample_files
          (sample_manager [(asc ''help'', sample_plugin (asc ''Help''))]) (asc ''news_pusher'')))
     = plugins (sample_manager [(asc ''help'', sample_plugin (asc ''Help''))]) \<and>
   fst (load_plugin sample_files (sample_manager [(asc ''help'', sample_plugin (asc ''Help''))])
          (asc ''abstract'')) = None \<and>
   plugin_modules (snd (load_plugin sample_files
          (sample_manager [(asc ''help'', sample_plugin (asc ''Help''))]) (asc ''abstract'')))
     = plugin_modules (sample_manager [(asc ''help'', sample_plugin (asc ''Help''))])"
proof -
  let ?pm = "sample_manager [(asc ''help'', sample_plugin (asc ''Help''))]"
  have h1: "sample_files (asc ''news_pusher'') = NoFile"
    by (simp add: sample_files_def asc_def)
  have h2: "\<exists>ms. sample_files (asc ''abstract'') = Module ms \<and>
        (find_plugin_class ms = None \<or>
         (\<exists>ctor e. find_plugin_class ms = Some ctor \<and> ctor (config ?pm) = Inl e))"
    by (simp add: sample_files_def asc_def)
  show ?thesis
    using h1 h2
      load_failure_leaves_registry[of sample_files "asc ''news_pusher''" ?pm]
      load_failure_leaves_registry[of sample_files "asc ''abstract''" ?pm]
    by blast
qed

text \<open>
  C3, as stated, fails: \<open>scheduler\<close> is registered, its \<open>stop\<close> raises, and after
  \<open>unload_plugin\<close>, which returns \<open>False\<close>, it is still registered.
\<close>

theorem unload_keeps_entry_when_stop_raises:
  "map_of (plugins (sample_manager [(asc ''scheduler'', stuck_plugin (asc ''Scheduler''))]))
       (asc ''scheduler'') = Some (stuck_plugin (asc ''Scheduler'')) \<and>
   fst (stop (stuck_plugin (asc ''Scheduler''))) = Some RuntimeError \<and>
   fst (unload_plugin (sample_manager [(asc ''scheduler'', stuck_plugin (asc ''Scheduler''))])
          (asc ''scheduler'')) = False \<and>
   map fst (plugins (snd (unload_plugin
          (sample_manager [(asc ''scheduler'', stuck_plugin (asc ''Scheduler''))])
          (asc ''scheduler'')))) = [asc ''scheduler'']"
  by (simp add: sample_manager_def unload_plugin_def stop_def stuck_plugin_def logged_def)

text \<open>
  C3, amended: when the name is registered and \<open>stop\<close> returns, \<open>unload_plugin\<close>
  returns \<open>True\<close> and the entry and its module are removed; when \<open>stop\<close> raises, it
  returns \<open>False\<close>, logs the failure, and the registry keeps its names, the entry
  included; when the name is absent, it returns \<open>False\<close> and the registry is unchanged.
\<close>

theorem unload_outcomes:
  "(\<forall>p p'. map_of (plugins pm) nm = Some p \<and> stop p = (None, p') \<longrightarrow>
      fst (unload_plugin pm nm) = True \<and>
      plugins (snd (unload_plugin pm nm)) = AList.delete nm (plugins pm) \<and>
      map_of (plugins (snd (unload_plugin pm nm))) nm = None \<and>
      plugin_modules (snd (unload_plugin pm nm)) = AList.delete nm (plugin_modules pm)) \<and>
   (\<forall>p e p'. map_of (plugins pm) nm = Some p \<and> stop p = (Some e, p') \<longrightarrow>
      fst (unload_plugin pm nm) = False \<and>
      plugins (snd (unload_plugin pm nm)) = AList.update nm p' (plugins pm) \<and>
      map fst (plugins (snd (unload_plugin pm nm))) = map fst (plugins pm) \<and>
      plugin_modules (snd (unload_plugin pm nm)) = plugin_modules pm \<and>
      log (snd (unload_plugin pm nm)) = log pm @ [UnloadFailed nm e]) \<and>
   (map_of (plugins pm) nm = None \<longrightarrow>
      fst (unload_plugin pm nm) = False \<and>
      plugins (snd (unload_plugin pm nm)) = plugins pm \<and>
      plugin_modules (snd (unload_plugin pm nm)) = plugin_modules pm)"
proof -
  have c1: "fst (unload_plugin pm nm) = True \<and>
      plugins (snd (unload_plugin pm nm)) = AList.delete nm (plugins pm) \<and>
      map_of (plugins (snd (unload_plugin pm nm))) nm = None \<and>
      plugin_modules (snd (unload_plugin pm nm)) = AList.delete nm (plugin_modules pm)"
    if "map_of (plugins pm) nm = Some p \<and> stop p = (None, p')" for p p'
    using that by (simp add: unload_plugin_def delete_conv')
  have c2: "fst (unload_plugin pm nm) = False \<and>
      plugins (snd (unload_plugin pm nm)) = AList.update nm p' (plugins pm) \<and>
      map fst (plugins (snd (unload_plugin pm nm))) = map fst (plugins pm) \<and>
      plugin_modules (snd (unload_plugin pm nm)) = plugin_modules pm \<and>
      log (snd (unload_plugin pm nm)) = log pm @ [UnloadFailed nm e]"
    if a: "map_of (plugins pm) nm = Some p \<and> stop p = (Some e, p')" for p e p'
  proof -
    have "nm \<in> fst ` set (plugins pm)"
      using a by (metis domI dom_map_of_conv_image_fst)
    then show ?thesis using a by (simp add: unload_plugin_def update_keys)
  qed
  have c3: "fst (unload_plugin pm nm) = False \<and>
      plugins (snd (unload_plugin pm nm)) = plugins pm \<and>
      plugin_modules (snd (unload_plugin pm nm)) = plugin_modules pm"
    if "map_of (plugins pm) nm = None"
    using that by (simp add: unload_plugin_def)
  show ?thesis using c1 c2 c3 by blast
qed

theorem unload_outcomes_witness:
  "fst (unload_plugin (sample_manager [(asc ''help'', sample_plugin (asc ''Help''))])
          (asc ''help'')) = True \<and>
   plugins (snd (unload_plugin (sample_manager [(asc ''help'', sample_plugin (asc ''Help''))])
          (asc ''help''))) = [] \<and>
   fst (unload_plugin (sample_manager [(asc ''help'', stuck_plugin (asc ''Help''))])
          (asc ''help'')) = False \<and>
   map fst (plugins (snd (unload_plugin
          (sample_manager [(asc ''help'', stuck_plugin (asc ''Help''))]) (asc ''help''))))
     = [asc ''help''] \<and>
   fst (unload_plugin (sample_manager [(asc ''help'', sample_plugin (asc ''Help''))])
          (asc ''scheduler'')) = False"
proof -
  let ?good = "sample_manager [(asc ''help'', sample_plugin (asc ''Help''))]"
  let ?bad = "sample_manager [(asc ''help'', stuck_plugin (asc ''Help''))]"
  have h1: "map_of (plugins ?good) (asc ''help'') = Some (sample_plugin (asc ''Help'')) \<and>
      stop (sample_plugin (asc ''Help'')) = (None, snd (stop (sample_plugin (asc ''Help''))))"
    by (simp add: sample_manager_def stop_def sample_plugin_def)
  have h2: "map_of (plugins ?bad) (asc ''help'') = Some (stuck_plugin (asc ''Help'')) \<and>
      stop (stuck_plugin (asc ''Help'')) = (Some RuntimeError, stuck_plugin (asc ''Help''))"
    by (simp add: sample_manager_def stop_def stuck_plugin_def)
  have h3: "map_of (plugins ?good) (asc ''scheduler'') = None"
    by (simp add: sample_manager_def asc_def)
  have d: "AList.delete (asc ''help'') (plugins ?good) = []"
    by (simp add: sample_manager_def)
  have k: "map fst (plugins ?bad) = [asc ''help'']"
    by (simp add: sample_manager_def)
  show ?thesis
    using h1 h2 h3 d k
      unload_outcomes[of ?good "asc ''help''"]
      unload_outcomes[of ?bad "asc ''help''"]
      unload_outcomes[of ?good "asc ''scheduler''"]
    by metis
qed

text \<open>
  C8, as stated, fails: with \<open>scheduler\<close> loaded and its \<open>stop\<close> raising, the unload
  leaves it registered, and after the reload of \<open>help\<close>, \<open>scheduler\<close> (both loads
  succeed) the status lists \<open>scheduler\<close> before \<open>help\<close>.
\<close>

theorem reload_keeps_plugin_whose_stop_raises:
  "get (config (sample_manager [(asc ''scheduler'', stuck_plugin (asc ''Scheduler''))]))
       (asc ''plugins.enabled'') (CList [])
     = Inr (CList [CStr (asc ''help''), CStr (asc ''scheduler'')]) \<and>
   load_succeeds sample_files
     (config (sample_manager [(asc ''scheduler'', stuck_plugin (asc ''Scheduler''))])) (asc ''help'') \<and>
   load_succeeds sample_files
     (config (sample_manager [(asc ''scheduler'', stuck_plugin (asc ''Scheduler''))])) (asc ''scheduler'') \<and>
   (case get_status (snd (reload_plugins sample_files
            (sample_manager [(asc ''scheduler'', stuck_plugin (asc ''Scheduler''))]))) of
      Inr st \<Rightarrow> loaded_plugins st | Inl e \<Rightarrow> [])
     = [asc ''scheduler'', asc ''help'']"
  by (simp add: sample_manager_def get_def split_dot_def asc_def load_succeeds_def
      sample_files_def reload_plugins_def logged_def unload_plugin_def stop_def stuck_plugin_def
      load_plugin_def get_status_def)

text \<open>
  C8, amended: when the configured \<open>plugins.enabled\<close> is a list of distinct names,
  each of them loads, and \<open>stop\<close> returns for every plugin loaded before, then
  \<open>reload_plugins\<close> returns and the status lists exactly the configured names, in
  their order. (The claim's scenario is the list \<open>help\<close>, \<open>scheduler\<close>.)
\<close>

theorem reload_loads_enabled_in_order:
  assumes en: "get (config pm) (asc ''plugins.enabled'') (CList []) = Inr (CList (map CStr names))"
    and dist: "distinct names"
    and ok: "\<forall>n\<in>set names. load_succeeds files (config pm) n"
    and stops: "\<forall>(n, p)\<in>set (plugins pm). fst (stop p) = None"
  shows "fst (reload_plugins files pm) = None \<and>
         (\<exists>st. get_status (snd (reload_plugins files pm)) = Inr st \<and>
               loaded_plugins st = names \<and> total_plugins st = length names)"
proof -
  let ?pm1 = "unload_all (logged ReloadBegin pm) (map fst (plugins pm))"
  let ?pm2 = "load_all files ?pm1 (map CStr names)"
  have r: "reload_plugins files pm = (None, logged ReloadEnd ?pm2)"
    using en by (simp add: reload_plugins_def Let_def)
  have e1: "plugins ?pm1 = []"
    by (rule unload_all_empties) (use stops in simp_all)
  have c1: "config ?pm1 = config pm" by (simp add: unload_all_config)
  have k2: "map fst (plugins ?pm2) = map fst (plugins ?pm1) @ names"
    by (rule load_all_keys) (use ok dist c1 e1 in simp_all)
  have c2: "config ?pm2 = config pm" by (simp add: load_all_config c1)
  have "get_status (logged ReloadEnd ?pm2) =
      Inr \<lparr>total_plugins = length (plugins ?pm2), enabled_plugins = CList (map CStr names),
           loaded_plugins = map fst (plugins ?pm2),
           plugin_details = details_loop (plugins ?pm2) []\<rparr>"
    using en c2 by (simp add: get_status_def)
  moreover have "map fst (plugins ?pm2) = names" using k2 e1 by simp
  moreover have "length (plugins ?pm2) = length names"
    using \<open>map fst (plugins ?pm2) = names\<close> by (metis length_map)
  ultimately show ?thesis using r by simp
qed

theorem reload_loads_enabled_in_order_witness:
  "fst (reload_plugins sample_files
         (sample_manager [(asc ''scheduler'', sample_plugin (asc ''Scheduler'')),
                          (asc ''news_pusher'', sample_plugin (asc ''News''))])) = None \<and>
   (\<exists>st. get_status (snd (reload_plugins sample_files
         (sample_manager [(asc ''scheduler'', sample_plugin (asc ''Scheduler'')),
                          (asc ''news_pusher'', sample_plugin (asc ''News''))]))) = Inr st \<and>
       loaded_plugins st = [asc ''help'', asc ''scheduler''] \<and> total_plugins st = 2)"
proof -
  let ?pm = "sample_manager [(asc ''scheduler'', sample_plugin (asc ''Scheduler'')),
                          (asc ''news_pusher'', sample_plugin (asc ''News''))]"
  have en: "get (config ?pm) (asc ''plugins.enabled'') (CList [])
      = Inr (CList (map CStr [asc ''help'', asc ''scheduler'']))"
    by (simp add: sample_manager_def get_def split_dot_def asc_def)
  have dist: "distinct [asc ''help'', asc ''scheduler'']" by (simp add: asc_def)
  have ok: "\<forall>n\<in>set [asc ''help'', asc ''scheduler'']. load_succeeds sample_files (config ?pm) n"
    by (simp add: load_succeeds_def sample_files_def)
  have stops: "\<forall>(n, p)\<in>set (plugins ?pm). fst (stop p) = None"
    by (simp add: sample_manager_def stop_def sample_plugin_def)
  show ?thesis using reload_loads_enabled_in_order[OF en dist ok stops] by (simp add: numeral_2_eq_2)
qed

text \<open>
  C9: \<open>start_plugins\<close> and \<open>stop_plugins\<close> return without an exception; every
  registered plugin, in the order of the registry, has had its \<open>start\<close> (its \<open>stop\<close>)
  called and is left as that call left it, whether the call returned or raised; and
  one event per plugin is logged, a success or a failure carrying the exception.
\<close>

theorem start_stop_all_visit_every_plugin:
  "fst (start_plugins pm) = None \<and>
   plugins (snd (start_plugins pm)) = map (\<lambda>(n, p). (n, snd (start p))) (plugins pm) \<and>
   log (snd (start_plugins pm)) = log pm @
     map (\<lambda>(n, p). case fst (start p) of None \<Rightarrow> PluginStarted n | Some e \<Rightarrow> StartFailed n e)
       (plugins pm) \<and>
   fst (stop_plugins pm) = None \<and>
   plugins (snd (stop_plugins pm)) = map (\<lambda>(n, p). (n, snd (stop p))) (plugins pm) \<and>
   log (snd (stop_plugins pm)) = log pm @
     map (\<lambda>(n, p). case fst (stop p) of None \<Rightarrow> PluginStopped n | Some e \<Rightarrow> StopFailed n e)
       (plugins pm)"
  by (simp add: start_plugins_def stop_plugins_def start_loop_result stop_loop_result)

text \<open>With a first plugin whose \<open>start\<close> raises, the second one is started all the same.\<close>

lemma start_plugins_example:
  "map (\<lambda>(n, p). (n, is_running (attrs p)))
     (plugins (snd (start_plugins
        (sample_manager [(asc ''news_pusher'', stuck_plugin (asc ''News'')),
                         (asc ''help'', sample_plugin (asc ''Help''))]))))
   = [(asc ''news_pusher'', True), (asc ''help'', True)] \<and>
   log (snd (start_plugins
        (sample_manager [(asc ''news_pusher'', stuck_plugin (asc ''News'')),
                         (asc ''help'', sample_plugin (asc ''Help''))])))
   = [StartFailed (asc ''news_pusher'') RuntimeError, PluginStarted (asc ''help'')]"
  by (simp add: start_plugins_def sample_manager_def stuck_plugin_def sample_plugin_def
      sample_attrs_def start_def)

lemma execute_plugin_command_absent:
  "get_plugin pm nm = None \<Longrightarrow> execute_plugin_command pm nm command user_id = (Inl ValueError, pm)"
  by (simp add: execute_plugin_command_def)

section \<open>Properties of the message handler\<close>

lemma in_set_dropWhile: "x \<in> set xs \<Longrightarrow> \<not> P x \<Longrightarrow> x \<in> set (dropWhile P xs)"
  by (induction xs) auto

lemma strip_nonempty: "x \<in> set s \<Longrightarrow> \<not> isspace x \<Longrightarrow> strip s \<noteq> []"
proof -
  assume x: "x \<in> set s" and ns: "\<not> isspace x"
  have "x \<in> set (dropWhile isspace s)" using x ns by (rule in_set_dropWhile)
  then have "x \<in> set (rev (dropWhile isspace s))" by simp
  then have "x \<in> set (dropWhile isspace (rev (dropWhile isspace s)))"
    using ns by (rule in_set_dropWhile)
  then have "dropWhile isspace (rev (dropWhile isspace s)) \<noteq> []"
    by (metis empty_iff list.set(1))
  then show ?thesis by (simp add: strip_def)
qed

lemma literal_match_slash: "\<not> ci_char p 47 \<Longrightarrow> \<not> literal_match (p # ps) (47 # r)"
  by (simp add: literal_match_def)

lemma anchored_match_slash: "\<not> ci_char p 47 \<Longrightarrow> \<not> anchored_match (p # ps) (47 # r)"
  by (cases r) (auto simp: anchored_match_def literal_match_def)

lemma first_match_slash: "first_match command_patterns (47 # r) = None"
  by (simp add: command_patterns_def re_match_def anchored_match_slash ci_char_def
      pattern_help_zh_def pattern_help_en_def pattern_status_zh_def pattern_status_en_def
      pattern_plugins_zh_def pattern_plugins_en_def pattern_reload_zh_def pattern_reload_en_def
      asc_def)

lemma split_first_name:
  "32 \<notin> set nm \<Longrightarrow> split_first 32 nm = [nm]"
  by (simp add: split_first_def)

lemma split_first_name_command:
  assumes "32 \<notin> set nm"
  shows "split_first 32 (nm @ 32 # cmd) = [nm, cmd]"
proof -
  have "takeWhile (\<lambda>x. x \<noteq> 32) (nm @ 32 # cmd) = nm"
    using assms by (induction nm) auto
  moreover have "dropWhile (\<lambda>x. x \<noteq> 32) (nm @ 32 # cmd) = 32 # cmd"
    using assms by (induction nm) auto
  ultimately show ?thesis by (simp add: split_first_def)
qed

lemma handle_plugin_command_addressed:
  assumes "32 \<notin> set nm"
    and "rest = nm \<and> cmd = [] \<or> rest = nm @ 32 # cmd"
    and "plugin_manager h = Some pm"
  shows "handle_plugin_command h (47 # rest) user_id =
     (case get_plugin pm nm of
        None \<Rightarrow> (Some (not_loaded_prefix @ nm @ not_loaded_suffix), h)
      | Some plugin \<Rightarrow>
          (case execute_command plugin cmd user_id of
             (r, plugin') \<Rightarrow>
               (case r of Inl e \<Rightarrow> None | Inr response \<Rightarrow> response,
                h\<lparr>plugin_manager :=
                    Some (pm\<lparr>plugins := AList.update nm plugin' (plugins pm)\<rparr>)\<rparr>)))"
  using assms
  by (auto simp: handle_plugin_command_def split_first_name split_first_name_command
      split: option.splits prod.splits)

lemma responses_nonempty: "r \<in> set responses \<Longrightarrow> r \<noteq> []"
  by (auto simp: responses_def default_response_1_def default_response_2_def
      default_response_3_def default_response_4_def)

lemma get_default_response_mem: "get_default_response rnd \<in> set responses"
proof -
  have "length responses = 4" by (simp add: responses_def)
  then have "rnd mod length responses < length responses" by simp
  then show ?thesis unfolding get_default_response_def by (rule nth_mem)
qed

lemma get_default_response_nonempty: "get_default_response rnd \<noteq> []"
  using get_default_response_mem responses_nonempty by blast

lemma handle_help_nonempty: "handle_help \<noteq> []"
proof -
  have "129302 \<in> set help_text" by (simp add: help_text_def)
  moreover have "\<not> isspace 129302" by (simp add: isspace_def)
  ultimately show ?thesis unfolding handle_help_def by (rule strip_nonempty)
qed

lemma handle_status_nonempty: "handle_status h \<noteq> []"
proof -
  have m: "129302 \<in> set status_text_1" by (simp add: status_text_1_def)
  have ns: "\<not> isspace 129302" by (simp add: isspace_def)
  have "strip (status_text_1 @ t) \<noteq> []" for t
    by (rule strip_nonempty[OF _ ns]) (use m in simp)
  moreover have "status_unavailable \<noteq> []" by (simp add: status_unavailable_def)
  moreover have "status_failed \<noteq> []" by (simp add: status_failed_def)
  ultimately show ?thesis
    by (simp add: handle_status_def split: option.splits sum.splits)
qed

lemma plugins_loop_prefix: "\<exists>t. plugins_loop ds acc = acc @ t"
proof (induction ds acc rule: plugins_loop.induct)
  case (1 plugins_text)
  then show ?case by simp
next
  case (2 nm d rest plugins_text)
  then obtain t where "plugins_loop ((nm, d) # rest) plugins_text
      = (plugins_text
          @ (if d_is_running d then icon_running else icon_stopped)
          @ asc '' '' @ d_name d @ asc '' v'' @ d_version d @ [10]
          @ description_label @ d_description d @ [10, 10]) @ t"
    by auto
  then show ?case by (metis append.assoc)
qed

lemma handle_plugins_nonempty: "handle_plugins h \<noteq> []"
proof -
  have ns: "\<not> isspace 128230" by (simp add: isspace_def)
  have "strip (plugins_loop ds plugins_header) \<noteq> []" for ds
  proof -
    obtain t where t: "plugins_loop ds plugins_header = plugins_header @ t"
      using plugins_loop_prefix by blast
    have "128230 \<in> set (plugins_header @ t)" by (simp add: plugins_header_def)
    then show ?thesis using t strip_nonempty[OF _ ns] by metis
  qed
  moreover have "plugins_unavailable \<noteq> []" by (simp add: plugins_unavailable_def)
  moreover have "plugins_failed \<noteq> []" by (simp add: plugins_failed_def)
  ultimately show ?thesis
    by (simp add: handle_plugins_def split: option.splits sum.splits)
qed

lemma handle_reload_nonempty: "fst (handle_reload files h) \<noteq> []"
  by (simp add: handle_reload_def reload_done_def reload_unavailable_def reload_failed_def
      split: option.splits prod.splits)

lemma text_message_failed_nonempty: "text_message_failed \<noteq> []"
  by (simp add: text_message_failed_def)

lemma reply_nonempty: "fst (handle_text_message files h m rnd) \<noteq> []"
  by (simp add: handle_text_message_def Let_def text_message_failed_nonempty
      handle_help_nonempty handle_status_nonempty handle_plugins_nonempty
      handle_reload_nonempty get_default_response_nonempty
      split: option.splits sys_command.splits prod.splits)

lemma not_loaded_nonempty: "not_loaded_prefix @ nm @ not_loaded_suffix \<noteq> []"
  by (simp add: not_loaded_prefix_def)

lemma handle_text_message_addressed:
  assumes "FromUserName m = Some user_id" and "Text m = Some raw"
    and "strip raw = 47 # rest"
  shows "handle_text_message files h m rnd =
     (case handle_plugin_command h (47 # rest) user_id of
        (Some plugin_response, h') \<Rightarrow>
          if plugin_response \<noteq> [] then (plugin_response, h')
          else (get_default_response rnd, h')
      | (None, h') \<Rightarrow> (get_default_response rnd, h'))"
  using assms by (simp add: handle_text_message_def first_match_slash)

text \<open>
  C1: \<open>handle_text_message\<close> returns a non-empty reply for every message, configuration,
  registry and plugin directory. In particular, when the text is \<open>/name\<close> or
  \<open>/name command\<close>, \<open>name\<close> is registered and its \<open>execute_command\<close> raises, the
  exception does not leave the handler: the reply is one of the default responses, and
  the registry differs only in the instance of \<open>name\<close>, left as the call left it.
\<close>

theorem text_reply_nonempty:
  "fst (handle_text_message files h m rnd) \<noteq> [] \<and>
   (\<forall>user_id raw rest nm cmd pm p e p'.
      FromUserName m = Some user_id \<and> Text m = Some raw \<and> strip raw = 47 # rest \<and>
      32 \<notin> set nm \<and> (rest = nm \<and> cmd = [] \<or> rest = nm @ 32 # cmd) \<and>
      plugin_manager h = Some pm \<and> get_plugin pm nm = Some p \<and>
      execute_command p cmd user_id = (Inl e, p')
      \<longrightarrow> handle_text_message files h m rnd =
            (get_default_response rnd,
             h\<lparr>plugin_manager := Some (pm\<lparr>plugins := AList.update nm p' (plugins pm)\<rparr>)\<rparr>) \<and>
          get_default_response rnd \<in> set responses \<and> get_default_response rnd \<noteq> [])"
proof -
  have "handle_text_message files h m rnd =
            (get_default_response rnd,
             h\<lparr>plugin_manager := Some (pm\<lparr>plugins := AList.update nm p' (plugins pm)\<rparr>)\<rparr>)"
    if "FromUserName m = Some user_id" "Text m = Some raw" "strip raw = 47 # rest"
      "32 \<notin> set nm" "rest = nm \<and> cmd = [] \<or> rest = nm @ 32 # cmd"
      "plugin_manager h = Some pm" "get_plugin pm nm = Some p"
      "execute_command p cmd user_id = (Inl e, p')"
    for user_id raw rest nm cmd pm p e p'
    using that
    by (simp add: handle_text_message_addressed[OF that(1,2,3)]
        handle_plugin_command_addressed[OF that(4,5,6)])
  then show ?thesis
    using reply_nonempty get_default_response_mem get_default_response_nonempty by blast
qed

theorem text_reply_nonempty_witness:
  "handle_text_message sample_files (sample_handler [(asc ''help'', sample_plugin (asc ''Help''))])
     \<lparr>FromUserName = Some (asc ''u1''), Text = Some (asc '' /help commands '')\<rparr> 2
   = (default_response_3,
      (sample_handler [(asc ''help'', sample_plugin (asc ''Help''))])
        \<lparr>plugin_manager := Some ((sample_manager [(asc ''help'', sample_plugin (asc ''Help''))])
           \<lparr>plugins := AList.update (asc ''help'') (sample_plugin (asc ''Help''))
              (plugins (sample_manager [(asc ''help'', sample_plugin (asc ''Help''))]))\<rparr>)\<rparr>) \<and>
   default_response_3 \<noteq> []"
proof -
  let ?ps = "[(asc ''help'', sample_plugin (asc ''Help''))]"
  let ?m = "\<lparr>FromUserName = Some (asc ''u1''), Text = Some (asc '' /help commands '')\<rparr>"
  have h1: "FromUserName ?m = Some (asc ''u1'')" by simp
  have h2: "Text ?m = Some (asc '' /help commands '')" by simp
  have h3: "strip (asc '' /help commands '') = 47 # asc ''help commands''"
    by (simp add: strip_def asc_def isspace_def)
  have h4: "32 \<notin> set (asc ''help'')" by (simp add: asc_def)
  have h5: "asc ''help commands'' = asc ''help'' \<and> asc ''commands'' = [] \<or>
      asc ''help commands'' = asc ''help'' @ 32 # asc ''commands''"
    by (simp add: asc_def)
  have h6: "plugin_manager (sample_handler ?ps) = Some (sample_manager ?ps)"
    by (simp add: sample_handler_def)
  have h7: "get_plugin (sample_manager ?ps) (asc ''help'') = Some (sample_plugin (asc ''Help''))"
    by (simp add: get_plugin_def sample_manager_def)
  have h8: "execute_command (sample_plugin (asc ''Help'')) (asc ''commands'') (asc ''u1'')
      = (Inl NotImplementedError, sample_plugin (asc ''Help''))"
    by (simp add: execute_command_def sample_plugin_def base_execute_command_def)
  have d: "get_default_response 2 = default_response_3"
    by (simp add: get_default_response_def responses_def)
  from text_reply_nonempty[of sample_files "sample_handler ?ps" ?m 2, THEN conjunct2,
      rule_format, OF conjI[OF h1 conjI[OF h2 conjI[OF h3 conjI[OF h4 conjI[OF h5
        conjI[OF h6 conjI[OF h7 h8]]]]]]]]
  show ?thesis by (simp add: d)
qed

text \<open>
  C2, as stated, fails: \<open>weather\<close> is not registered, and the registry's dispatch
  \<open>execute_plugin_command("weather", "today", user_id="u1")\<close> raises \<open>ValueError\<close> to
  its caller instead of returning a text.
\<close>

theorem execute_plugin_command_raises_for_absent_name:
  "get_plugin (sample_manager [(asc ''help'', sample_plugin (asc ''Help''))]) (asc ''weather'')
     = None \<and>
   execute_plugin_command (sample_manager [(asc ''help'', sample_plugin (asc ''Help''))])
       (asc ''weather'') (asc ''today'') (asc ''u1'')
     = (Inl ValueError, sample_manager [(asc ''help'', sample_plugin (asc ''Help''))])"
  by (simp add: execute_plugin_command_def get_plugin_def sample_manager_def asc_def)

text \<open>
  C2, amended: for a name that is not registered, a plugin-addressed command (the text
  \<open>/name\<close> or \<open>/name command\<close>) dispatched through the router, with the plugin manager
  attached to the handler, returns the text \<open>not_loaded_prefix name not_loaded_suffix\<close>
  (plugin \<open>name\<close> does not exist or is not loaded), which is not empty, leaves the handler
  unchanged, and no exception reaches the caller of \<open>handle_text_message\<close>. The
  registry's own \<open>execute_plugin_command\<close> raises \<open>ValueError\<close> for that name, whatever
  the command and the caller, and leaves the registry unchanged.
\<close>

theorem absent_plugin_reply:
  assumes "FromUserName m = Some user_id" and "Text m = Some raw"
    and "strip raw = 47 # rest"
    and "32 \<notin> set nm" and "rest = nm \<and> cmd = [] \<or> rest = nm @ 32 # cmd"
    and "plugin_manager h = Some pm" and "get_plugin pm nm = None"
  shows "handle_plugin_command h (strip raw) user_id =
           (Some (not_loaded_prefix @ nm @ not_loaded_suffix), h) \<and>
         handle_text_message files h m rnd = (not_loaded_prefix @ nm @ not_loaded_suffix, h) \<and>
         not_loaded_prefix @ nm @ not_loaded_suffix \<noteq> [] \<and>
         execute_plugin_command pm nm command caller = (Inl ValueError, pm)"
proof -
  have c: "handle_plugin_command h (47 # rest) user_id =
      (Some (not_loaded_prefix @ nm @ not_loaded_suffix), h)"
    using assms(7) by (simp add: handle_plugin_command_addressed[OF assms(4,5,6)])
  have ne: "not_loaded_prefix @ nm @ not_loaded_suffix \<noteq> []" by (rule not_loaded_nonempty)
  have t: "handle_text_message files h m rnd = (not_loaded_prefix @ nm @ not_loaded_suffix, h)"
    using c ne by (simp add: handle_text_message_addressed[OF assms(1,2,3)])
  have r: "execute_plugin_command pm nm command caller = (Inl ValueError, pm)"
    using assms(7) by (rule execute_plugin_command_absent)
  show ?thesis using c ne t r assms(3) by simp
qed

theorem absent_plugin_reply_witness:
  "handle_text_message sample_files (sample_handler [(asc ''help'', sample_plugin (asc ''Help''))])
     \<lparr>FromUserName = Some (asc ''u1''), Text = Some (asc ''/weather today'')\<rparr> 0
   = (not_loaded_prefix @ asc ''weather'' @ not_loaded_suffix,
      sample_handler [(asc ''help'', sample_plugin (asc ''Help''))]) \<and>
   fst (execute_plugin_command (sample_manager [(asc ''help'', sample_plugin (asc ''Help''))])
          (asc ''weather'') (asc ''today'') (asc ''u1'')) = Inl ValueError"
proof -
  let ?ps = "[(asc ''help'', sample_plugin (asc ''Help''))]"
  let ?m = "\<lparr>FromUserName = Some (asc ''u1''), Text = Some (asc ''/weather today'')\<rparr>"
  have h1: "FromUserName ?m = Some (asc ''u1'')" by simp
  have h2: "Text ?m = Some (asc ''/weather today'')" by simp
  have h3: "strip (asc ''/weather today'') = 47 # asc ''weather today''"
    by (simp add: strip_def asc_def isspace_def)
  have h4: "32 \<notin> set (asc ''weather'')" by (simp add: asc_def)
  have h5: "asc ''weather today'' = asc ''weather'' \<and> asc ''today'' = [] \<or>
      asc ''weather today'' = asc ''weather'' @ 32 # asc ''today''"
    by (simp add: asc_def)
  have h6: "plugin_manager (sample_handler ?ps) = Some (sample_manager ?ps)"
    by (simp add: sample_handler_def)
  have h7: "get_plugin (sample_manager ?ps) (asc ''weather'') = None"
    by (simp add: get_plugin_def sample_manager_def asc_def)
  from absent_plugin_reply[OF h1 h2 h3 h4 h5 h6 h7,
      of sample_files 0 "asc ''today''" "asc ''u1''"]
  show ?thesis by simp
qed

text \<open>
  C10: when the text is \<open>/name\<close> or \<open>/name command\<close>, \<open>name\<close> is registered and its
  \<open>execute_command\<close> returns \<open>None\<close> or the empty string, the reply is one of the four
  default responses, the one the draw selects; it is the reply a text that is neither a
  system command nor starts with \<open>/\<close> gets.
\<close>

theorem falsy_plugin_reply_gives_default:
  "(\<forall>user_id raw rest nm cmd pm p r p'.
      FromUserName m = Some user_id \<and> Text m = Some raw \<and> strip raw = 47 # rest \<and>
      32 \<notin> set nm \<and> (rest = nm \<and> cmd = [] \<or> rest = nm @ 32 # cmd) \<and>
      plugin_manager h = Some pm \<and> get_plugin pm nm = Some p \<and>
      execute_command p cmd user_id = (Inr r, p') \<and> (r = None \<or> r = Some [])
      \<longrightarrow> handle_text_message files h m rnd =
            (get_default_response rnd,
             h\<lparr>plugin_manager := Some (pm\<lparr>plugins := AList.update nm p' (plugins pm)\<rparr>)\<rparr>)) \<and>
   (\<forall>user_id raw.
      FromUserName m = Some user_id \<and> Text m = Some raw \<and>
      first_match command_patterns (strip raw) = None \<and> (\<forall>rest. strip raw \<noteq> 47 # rest)
      \<longrightarrow> handle_text_message files h m rnd = (get_default_response rnd, h)) \<and>
   get_default_response rnd \<in> set responses \<and> length responses = 4"
proof -
  have a: "handle_text_message files h m rnd =
            (get_default_response rnd,
             h\<lparr>plugin_manager := Some (pm\<lparr>plugins := AList.update nm p' (plugins pm)\<rparr>)\<rparr>)"
    if "FromUserName m = Some user_id" "Text m = Some raw" "strip raw = 47 # rest"
      "32 \<notin> set nm" "rest = nm \<and> cmd = [] \<or> rest = nm @ 32 # cmd"
      "plugin_manager h = Some pm" "get_plugin pm nm = Some p"
      "execute_command p cmd user_id = (Inr r, p')" "r = None \<or> r = Some []"
    for user_id raw rest nm cmd pm p r p'
    using that(7,8,9)
    by (auto simp: handle_text_message_addressed[OF that(1,2,3)]
        handle_plugin_command_addressed[OF that(4,5,6)])
  have b: "handle_text_message files h m rnd = (get_default_response rnd, h)"
    if "FromUserName m = Some user_id" "Text m = Some raw"
      "first_match command_patterns (strip raw) = None" "\<forall>rest. strip raw \<noteq> 47 # rest"
    for user_id raw
  proof -
    have "handle_plugin_command h (strip raw) user_id = (None, h)"
      using that(4) by (cases "strip raw") (auto simp: handle_plugin_command_def)
    then show ?thesis using that(1,2,3) by (simp add: handle_text_message_def)
  qed
  have c: "length responses = 4" by (simp add: responses_def)
  show ?thesis using a b c get_default_response_mem by blast
qed

theorem falsy_plugin_reply_gives_default_witness:
  "fst (handle_text_message sample_files
          (sample_handler [(asc ''help'', quiet_plugin (asc ''Help''))])
          \<lparr>FromUserName = Some (asc ''u1''), Text = Some (asc ''/help'')\<rparr> 5)
     = default_response_2 \<and>
   handle_text_message sample_files
          (sample_handler [(asc ''help'', quiet_plugin (asc ''Help''))])
          \<lparr>FromUserName = Some (asc ''u1''), Text = Some (asc ''hello'')\<rparr> 5
     = (default_response_2, sample_handler [(asc ''help'', quiet_plugin (asc ''Help''))])"
proof -
  let ?ps = "[(asc ''help'', quiet_plugin (asc ''Help''))]"
  let ?m = "\<lparr>FromUserName = Some (asc ''u1''), Text = Some (asc ''/help'')\<rparr>"
  let ?m2 = "\<lparr>FromUserName = Some (asc ''u1''), Text = Some (asc ''hello'')\<rparr>"
  have h1: "FromUserName ?m = Some (asc ''u1'')" by simp
  have h2: "Text ?m = Some (asc ''/help'')" by simp
  have h3: "strip (asc ''/help'') = 47 # asc ''help''"
    by (simp add: strip_def asc_def isspace_def)
  have h4: "32 \<notin> set (asc ''help'')" by (simp add: asc_def)
  have h5: "asc ''help'' = asc ''help'' \<and> ([]::ustr) = [] \<or>
      asc ''help'' = asc ''help'' @ 32 # []"
    by simp
  have h6: "plugin_manager (sample_handler ?ps) = Some (sample_manager ?ps)"
    by (simp add: sample_handler_def)
  have h7: "get_plugin (sample_manager ?ps) (asc ''help'') = Some (quiet_plugin (asc ''Help''))"
    by (simp add: get_plugin_def sample_manager_def)
  have h8: "execute_command (quiet_plugin (asc ''Help'')) [] (asc ''u1'')
      = (Inr (Some []), quiet_plugin (asc ''Help''))"
    by (simp add: execute_command_def quiet_plugin_def)
  have h9: "Some ([]::ustr) = None \<or> Some ([]::ustr) = Some []" by simp
  have g1: "FromUserName ?m2 = Some (asc ''u1'')" by simp
  have g2: "Text ?m2 = Some (asc ''hello'')" by simp
  have s: "strip (asc ''hello'') = asc ''hello''"
    by (simp add: strip_def asc_def isspace_def)
  have g3: "first_match command_patterns (strip (asc ''hello'')) = None"
    unfolding s
    by (simp add: command_patterns_def re_match_def anchored_match_def literal_match_def
      ci_char_def asc_def
      pattern_help_zh_def pattern_help_en_def pattern_status_zh_def pattern_status_en_def
      pattern_plugins_zh_def pattern_plugins_en_def pattern_reload_zh_def pattern_reload_en_def)
  have g4: "\<forall>rest. strip (asc ''hello'') \<noteq> 47 # rest"
    unfolding s by (simp add: asc_def)
  have d: "get_default_response 5 = default_response_2"
    by (simp add: get_default_response_def responses_def)
  note T = falsy_plugin_reply_gives_default[of _ "sample_handler ?ps" sample_files 5]
  from T[of ?m, THEN conjunct1, rule_format,
      OF conjI[OF h1 conjI[OF h2 conjI[OF h3 conjI[OF h4 conjI[OF h5
        conjI[OF h6 conjI[OF h7 conjI[OF h8 h9]]]]]]]]]
  have a: "fst (handle_text_message sample_files (sample_handler ?ps) ?m 5) = default_response_2"
    by (simp add: d)
  from T[of ?m2, THEN conjunct2, THEN conjunct1, rule_format,
      OF conjI[OF g1 conjI[OF g2 conjI[OF g3 g4]]]]
  have b: "handle_text_message sample_files (sample_handler ?ps) ?m2 5
      = (default_response_2, sample_handler ?ps)"
    by (simp add: d)
  show ?thesis using a b by simp
qed

end
